theory Spec2Isabelle
  imports Main
begin

section \<open>Python strings\<close>

text \<open>
  The program is \<^verbatim>\<open>src/fetch_papers.py\<close>. Python's \<^verbatim>\<open>str\<close> is modelled by
  \<^typ>\<open>string\<close>: a character stands for the Unicode code point with the same number,
  so that the strings of the model are the Python strings over the code points U+0000 to
  U+00FF. On these the string methods below act as Python's do.

  \<^verbatim>\<open>s.lower()\<close> maps \<^verbatim>\<open>A\<close> to \<^verbatim>\<open>Z\<close> and the capital letters U+00C0 to U+00DE, except the
  multiplication sign U+00D7, to the letter 32 code points above.
\<close>

definition lower_char :: "char \<Rightarrow> char" where
  "lower_char c =
     (let n = (of_char c :: nat)
      in if (65 \<le> n \<and> n \<le> 90) \<or> (192 \<le> n \<and> n \<le> 222 \<and> n \<noteq> 215)
         then char_of (n + 32) else c)"

text \<open>\<^verbatim>\<open>s.lower()\<close>\<close>

definition lower :: "string \<Rightarrow> string" where
  "lower s = map lower_char s"

text \<open>
  The characters \<^verbatim>\<open>s.strip()\<close> removes: tab, newline, vertical tab, form feed,
  carriage return, the separators 0x1C to 0x1F, the space, the next-line character U+0085
  and the no-break space U+00A0.
\<close>

definition isspace :: "char \<Rightarrow> bool" where
  "isspace c =
     (let n = (of_char c :: nat)
      in (9 \<le> n \<and> n \<le> 13) \<or> (28 \<le> n \<and> n \<le> 32) \<or> n = 133 \<or> n = 160)"

text \<open>\<^verbatim>\<open>s.strip()\<close>\<close>

definition strip :: "string \<Rightarrow> string" where
  "strip s = rev (dropWhile isspace (rev (dropWhile isspace s)))"

text \<open>\<^verbatim>\<open>sep.join(parts)\<close>\<close>

fun join :: "string \<Rightarrow> string list \<Rightarrow> string" where
  "join sep [] = []"
| "join sep [x] = x"
| "join sep (x # y # ys) = x @ sep @ join sep (y # ys)"

section \<open>Python dictionaries\<close>

text \<open>
  A \<^verbatim>\<open>dict\<close> keeps its keys in insertion order, so it is an association list
  with distinct keys. \<^verbatim>\<open>d[k] = v\<close> overwrites the value of a key that is present,
  in place, and appends a key that is absent.
\<close>

fun dict_set :: "'k \<Rightarrow> 'v \<Rightarrow> ('k \<times> 'v) list \<Rightarrow> ('k \<times> 'v) list" where
  "dict_set k v [] = [(k, v)]"
| "dict_set k v ((k', v') # d) =
     (if k = k' then (k, v) # d else (k', v') # dict_set k v d)"

text \<open>\<^verbatim>\<open>k in d\<close>\<close>

definition dict_mem :: "'k \<Rightarrow> ('k \<times> 'v) list \<Rightarrow> bool" where
  "dict_mem k d = (map_of d k \<noteq> None)"

text \<open>\<^verbatim>\<open>list(d.values())\<close>\<close>

definition dict_values :: "('k \<times> 'v) list \<Rightarrow> 'v list" where
  "dict_values d = map snd d"

section \<open>The record schema\<close>

record PaperRecord =
  source :: string
  keyword :: string
  title :: string
  authors :: string
  doi :: string
  publication_date :: string
  journal :: string
  abstract :: string

section \<open>Deduplication\<close>

text \<open>
  The key computed in the loop body of \<^verbatim>\<open>deduplicate_records\<close>: the lowercased
  DOI when the DOI is a non-empty string, otherwise the text
  \<^verbatim>\<open>title:<lowercased, stripped title>|date:<publication_date>\<close>.
\<close>

definition identity_key :: "PaperRecord \<Rightarrow> string" where
  "identity_key r =
     (let key = (if doi r \<noteq> [] then lower (doi r) else [])
      in if key = []
         then (let normalized_title = strip (lower (title r))
               in ''title:'' @ normalized_title @ ''|date:'' @ publication_date r)
         else key)"

text \<open>The loop over the records, threading the dictionary \<^verbatim>\<open>seen\<close>.\<close>

fun dedup_loop :: "(string \<times> PaperRecord) list \<Rightarrow> PaperRecord list \<Rightarrow> (string \<times> PaperRecord) list" where
  "dedup_loop seen [] = seen"
| "dedup_loop seen (r # rs) =
     (let key = identity_key r
      in if \<not> dict_mem key seen then dedup_loop (dict_set key r seen) rs
         else dedup_loop seen rs)"

definition deduplicate_records :: "PaperRecord list \<Rightarrow> PaperRecord list" where
  "deduplicate_records records = dict_values (dedup_loop [] records)"

text \<open>The records of a list that have no DOI, no title after normalisation and no date.\<close>

definition blank_key :: "PaperRecord \<Rightarrow> bool" where
  "blank_key r \<longleftrightarrow> doi r = [] \<and> strip (lower (title r)) = [] \<and> publication_date r = []"

text \<open>
  Position \<open>i\<close> of a list of records is the first position that carries its
  identity key.
\<close>

definition first_with_key :: "PaperRecord list \<Rightarrow> nat \<Rightarrow> bool" where
  "first_with_key rs i \<longleftrightarrow> (\<forall>j<i. identity_key (rs ! j) \<noteq> identity_key (rs ! i))"

text \<open>Records used to run the definitions on concrete inputs.\<close>

definition example_pubmed :: PaperRecord where
  "example_pubmed = \<lparr>source = ''PubMed'', keyword = ''aortic stenosis'',
     title = ''Valve Study'', authors = ''A Smith; B Jones'', doi = ''10.1/X'',
     publication_date = ''2024-03-05'', journal = ''Heart'', abstract = ''First''\<rparr>"

definition example_crossref :: PaperRecord where
  "example_crossref = \<lparr>source = ''Crossref'', keyword = ''deep learning'',
     title = ''A Different Title'', authors = ''C Brown'', doi = ''10.1/x'',
     publication_date = ''2024-03'', journal = ''Heart Journal'', abstract = ''Second''\<rparr>"

definition example_openalex :: PaperRecord where
  "example_openalex = \<lparr>source = ''OpenAlex'', keyword = ''deep learning'',
     title = ''Third Paper'', authors = ''D Green'', doi = ''10.1/Y'',
     publication_date = ''2023'', journal = [], abstract = ''Third''\<rparr>"

definition example_untitled :: "string \<Rightarrow> string \<Rightarrow> string \<Rightarrow> PaperRecord" where
  "example_untitled src t d = \<lparr>source = src, keyword = ''deep learning'',
     title = t, authors = [], doi = [],
     publication_date = d, journal = [], abstract = []\<rparr>"

section \<open>More string methods\<close>

text \<open>
  \<^verbatim>\<open>s.replace(old, new)\<close>: the occurrences of \<^verbatim>\<open>old\<close> are found from the left, without
  overlap, in one pass. With an empty \<^verbatim>\<open>old\<close>, \<^verbatim>\<open>new\<close> is put before every character
  and at the end.
\<close>

function py_replace :: "string \<Rightarrow> string \<Rightarrow> string \<Rightarrow> string" where
  "py_replace old new [] = (if old = [] then new else [])"
| "py_replace old new (c # cs) =
     (if old = [] then new @ c # py_replace old new cs
      else if take (length old) (c # cs) = old
      then new @ py_replace old new (drop (length old) (c # cs))
      else c # py_replace old new cs)"
  by pat_completeness auto
termination
  by (relation "measure (\<lambda>(old, new, s). length s)") (auto simp: Suc_le_eq)

text \<open>Whether \<^verbatim>\<open>old\<close> occurs in a string (\<^verbatim>\<open>old in s\<close>).\<close>

fun contains :: "string \<Rightarrow> string \<Rightarrow> bool" where
  "contains old [] = (old = [])"
| "contains old (c # cs) = (take (length old) (c # cs) = old \<or> contains old cs)"




section \<open>Exceptions\<close>

text \<open>
  The exceptions the modelled code can raise. All of them are subclasses of
  \<^verbatim>\<open>Exception\<close>; \<^verbatim>\<open>OtherException\<close> stands for any other subclass, with its message.
\<close>

datatype py_error = ValueError | KeyError | OtherException string

section \<open>Author names of a PubMed article\<close>

text \<open>
  The result of \<^verbatim>\<open>findtext\<close> is \<^verbatim>\<open>None\<close> or a string; it is truthy when it is a
  non-empty string.
\<close>

definition truthy :: "string option \<Rightarrow> bool" where
  "truthy x = (case x of None \<Rightarrow> False | Some s \<Rightarrow> s \<noteq> [])"

definition text_of :: "string option \<Rightarrow> string" where
  "text_of x = (case x of None \<Rightarrow> [] | Some s \<Rightarrow> s)"

text \<open>The four children of an \<^verbatim>\<open>Author\<close> element that the loop reads.\<close>

record pubmed_author =
  collective_name :: "string option"
  last_name :: "string option"
  fore_name :: "string option"
  initials :: "string option"

text \<open>
  The body of the loop over \<^verbatim>\<open>.//Author\<close> in \<^verbatim>\<open>fetch_pubmed\<close>: the name appended to
  \<^verbatim>\<open>authors\<close>, or \<^verbatim>\<open>None\<close> when the entry appends nothing.
\<close>

definition pubmed_author_name :: "pubmed_author \<Rightarrow> string option" where
  "pubmed_author_name author =
     (if truthy (collective_name author) then Some (strip (text_of (collective_name author)))
      else if truthy (fore_name author) \<or> truthy (last_name author)
      then (let name_parts = filter (\<lambda>part. part \<noteq> [])
                               [text_of (fore_name author), text_of (last_name author)]
            in Some (join '' '' name_parts))
      else if truthy (initials author) \<and> truthy (last_name author)
      then Some (text_of (initials author) @ '' '' @ text_of (last_name author))
      else None)"

definition pubmed_authors_str :: "pubmed_author list \<Rightarrow> string" where
  "pubmed_authors_str entries = join ''; '' (List.map_filter pubmed_author_name entries)"

section \<open>The DOI field of the three adapters\<close>

text \<open>
  An element of the parsed XML document: its tag, its text, its children and the text
  that follows it inside its parent.
\<close>

datatype xml = Element (elem_tag: string) (elem_text: "string option")
  (elem_children: "xml list") (elem_tail: "string option")

text \<open>
  \<^verbatim>\<open>fetch_pubmed\<close>: \<^verbatim>\<open>doi_element\<close> is the result of \<^verbatim>\<open>article.find(...)\<close>, \<^verbatim>\<open>None\<close> or
  the \<^verbatim>\<open>ArticleId\<close> element of type \<^verbatim>\<open>doi\<close>.
\<close>

definition pubmed_doi :: "xml option \<Rightarrow> string" where
  "pubmed_doi doi_element =
     (case doi_element of
        None \<Rightarrow> []
      | Some e \<Rightarrow> if truthy (elem_text e) then strip (text_of (elem_text e)) else [])"

text \<open>\<^verbatim>\<open>fetch_crossref\<close>: the argument is \<^verbatim>\<open>item.get("DOI")\<close>.\<close>

definition crossref_doi :: "string option \<Rightarrow> string" where
  "crossref_doi v = strip (lower (if truthy v then text_of v else []))"

text \<open>\<^verbatim>\<open>fetch_openalex\<close>: the argument is \<^verbatim>\<open>item.get("ids", {}).get("doi")\<close>.\<close>

definition openalex_doi :: "string option \<Rightarrow> string" where
  "openalex_doi v = strip (py_replace ''https://doi.org/'' [] (if truthy v then text_of v else []))"

section \<open>The abstract field of the three adapters\<close>





section \<open>The publication date of a PubMed article\<close>

text \<open>The decimal digits \<^verbatim>\<open>0\<close> to \<^verbatim>\<open>9\<close>.\<close>

definition decimal_char :: "char \<Rightarrow> bool" where
  "decimal_char c = (let n = (of_char c :: nat) in 48 \<le> n \<and> n \<le> 57)"

text \<open>
  \<^verbatim>\<open>s.isdigit()\<close>: the string is not empty and all its characters are digits. Besides
  the decimal digits, the superscript digits U+00B2, U+00B3 and U+00B9 are digits for
  \<^verbatim>\<open>isdigit\<close>.
\<close>

definition isdigit_char :: "char \<Rightarrow> bool" where
  "isdigit_char c =
     (let n = (of_char c :: nat) in (48 \<le> n \<and> n \<le> 57) \<or> n = 178 \<or> n = 179 \<or> n = 185)"

definition isdigit :: "string \<Rightarrow> bool" where
  "isdigit s \<longleftrightarrow> s \<noteq> [] \<and> list_all isdigit_char s"

definition digit_value :: "char \<Rightarrow> nat" where
  "digit_value c = of_char c - 48"

text \<open>
  \<^verbatim>\<open>int(s)\<close> for a string. Whitespace around the number is dropped; for \<^verbatim>\<open>int\<close> the
  separators 0x1C to 0x1F are not whitespace. A sign may come first, then decimal digits,
  where single underscores may stand between two digits; the superscript digits are not
  accepted. More than 4300 digits are refused (the default limit of the interpreter).
  Anything else raises \<^verbatim>\<open>ValueError\<close> too.
\<close>

definition int_space :: "char \<Rightarrow> bool" where
  "int_space c =
     (let n = (of_char c :: nat) in (9 \<le> n \<and> n \<le> 13) \<or> n = 32 \<or> n = 133 \<or> n = 160)"

definition int_strip :: "string \<Rightarrow> string" where
  "int_strip s = rev (dropWhile int_space (rev (dropWhile int_space s)))"

fun parse_digits :: "nat \<Rightarrow> string \<Rightarrow> nat option" where
  "parse_digits acc [] = Some acc"
| "parse_digits acc (c # cs) =
     (if decimal_char c then parse_digits (10 * acc + digit_value c) cs
      else if c = CHR ''_'' \<and> cs \<noteq> [] \<and> decimal_char (hd cs) then parse_digits acc cs
      else None)"

definition parse_nat :: "string \<Rightarrow> nat option" where
  "parse_nat s =
     (if s \<noteq> [] \<and> decimal_char (hd s) \<and> length (filter decimal_char s) \<le> 4300
      then parse_digits 0 s else None)"

definition py_int :: "string \<Rightarrow> py_error + int" where
  "py_int s =
     (let t = int_strip s in
      case t of
        [] \<Rightarrow> Inl ValueError
      | c # cs \<Rightarrow>
          if c = CHR ''+'' then (case parse_nat cs of None \<Rightarrow> Inl ValueError | Some n \<Rightarrow> Inr (int n))
          else if c = CHR ''-'' then (case parse_nat cs of None \<Rightarrow> Inl ValueError | Some n \<Rightarrow> Inr (- int n))
          else (case parse_nat t of None \<Rightarrow> Inl ValueError | Some n \<Rightarrow> Inr (int n)))"

text \<open>\<^verbatim>\<open>str(n)\<close> for a natural number, and the format \<^verbatim>\<open>{n:02d}\<close> for an integer.\<close>

fun str_of_nat :: "nat \<Rightarrow> string" where
  "str_of_nat n =
     (if n < 10 then [char_of (48 + n)] else str_of_nat (n div 10) @ [char_of (48 + n mod 10)])"

definition format_02d :: "int \<Rightarrow> string" where
  "format_02d n =
     (if n < 0 then CHR ''-'' # str_of_nat (nat (- n))
      else (let d = str_of_nat (nat n) in if length d < 2 then CHR ''0'' # d else d))"

text \<open>
  \<^verbatim>\<open>datetime.strptime(s, "%b").month\<close>. The program never sets a locale, so the names
  are those of the C locale. The whole string has to be an abbreviated month name, in any
  case; otherwise \<^verbatim>\<open>ValueError\<close> is raised, here \<^verbatim>\<open>None\<close>.
\<close>

definition month_abbreviations :: "(string \<times> nat) list" where
  "month_abbreviations =
     [(''jan'', 1), (''feb'', 2), (''mar'', 3), (''apr'', 4), (''may'', 5), (''jun'', 6),
      (''jul'', 7), (''aug'', 8), (''sep'', 9), (''oct'', 10), (''nov'', 11), (''dec'', 12)]"

definition strptime_b_month :: "string \<Rightarrow> nat option" where
  "strptime_b_month s = map_of month_abbreviations (lower s)"

text \<open>The children \<^verbatim>\<open>Year\<close>, \<^verbatim>\<open>Month\<close> and \<^verbatim>\<open>Day\<close> of a date element, as \<^verbatim>\<open>findtext\<close> returns them.\<close>

record pub_date =
  year :: "string option"
  month :: "string option"
  day :: "string option"

text \<open>
  \<^verbatim>\<open>extract_pubmed_date\<close>. The two arguments are the results of
  \<^verbatim>\<open>article.find(".//JournalIssue/PubDate")\<close> and of \<^verbatim>\<open>article.find(".//ArticleDate")\<close>;
  the second is used when the first is \<^verbatim>\<open>None\<close>. An \<^verbatim>\<open>int(...)\<close> that raises ends the
  function with that exception.
\<close>

definition convert_month :: "string option \<Rightarrow> string option" where
  "convert_month m =
     (if truthy m \<and> \<not> isdigit (text_of m)
      then (case strptime_b_month (take 3 (text_of m)) of
              Some k \<Rightarrow> Some (format_02d (int k))
            | None \<Rightarrow> None)
      else m)"

definition assemble_date :: "string option \<Rightarrow> string option \<Rightarrow> string option \<Rightarrow> py_error + string" where
  "assemble_date y m d =
     (if truthy y \<and> truthy m \<and> truthy d
      then (case py_int (text_of m) of
              Inl exc \<Rightarrow> Inl exc
            | Inr mi \<Rightarrow> (case py_int (text_of d) of
                          Inl exc \<Rightarrow> Inl exc
                        | Inr di \<Rightarrow> Inr (text_of y @ ''-'' @ format_02d mi @ ''-'' @ format_02d di)))
      else if truthy y \<and> truthy m
      then (case py_int (text_of m) of
              Inl exc \<Rightarrow> Inl exc
            | Inr mi \<Rightarrow> Inr (text_of y @ ''-'' @ format_02d mi))
      else if truthy y then Inr (text_of y)
      else Inr [])"

definition find_pub_date :: "pub_date option \<Rightarrow> pub_date option \<Rightarrow> pub_date option" where
  "find_pub_date journal_issue_pub_date article_date =
     (if journal_issue_pub_date = None then article_date else journal_issue_pub_date)"

definition extract_pubmed_date :: "pub_date option \<Rightarrow> pub_date option \<Rightarrow> py_error + string" where
  "extract_pubmed_date journal_issue_pub_date article_date =
     (case find_pub_date journal_issue_pub_date article_date of
        None \<Rightarrow> Inr []
      | Some p \<Rightarrow> assemble_date (year p) (convert_month (month p)) (day p))"

text \<open>The four forms of a date string: \<^verbatim>\<open>YYYY-MM-DD\<close>, \<^verbatim>\<open>YYYY-MM\<close>, \<^verbatim>\<open>YYYY\<close> and empty.\<close>

definition four_granularity :: "string \<Rightarrow> bool" where
  "four_granularity s \<longleftrightarrow>
     s = []
     \<or> (length s = 4 \<and> list_all decimal_char s)
     \<or> (length s = 7 \<and> list_all decimal_char (take 4 s) \<and> s ! 4 = CHR ''-''
          \<and> list_all decimal_char (drop 5 s))
     \<or> (length s = 10 \<and> list_all decimal_char (take 4 s) \<and> s ! 4 = CHR ''-''
          \<and> list_all decimal_char (take 2 (drop 5 s)) \<and> s ! 7 = CHR ''-''
          \<and> list_all decimal_char (drop 8 s))"

text \<open>A string of one or two decimal digits, or an absent or empty one.\<close>

definition short_number :: "string option \<Rightarrow> bool" where
  "short_number x \<longleftrightarrow>
     \<not> truthy x \<or> (list_all decimal_char (text_of x) \<and> length (text_of x) \<le> 2)"

definition four_digits :: "string option \<Rightarrow> bool" where
  "four_digits x \<longleftrightarrow>
     \<not> truthy x \<or> (list_all decimal_char (text_of x) \<and> length (text_of x) = 4)"

text \<open>
  Date parts as PubMed sends them: a year of four decimal digits, a month that is a name
  or, when \<^verbatim>\<open>isdigit\<close> holds of it, has one or two decimal digits, a day of one or two
  decimal digits; each may be absent or empty.
\<close>

definition plain_date_parts :: "pub_date \<Rightarrow> bool" where
  "plain_date_parts p \<longleftrightarrow>
     four_digits (year p)
     \<and> (isdigit (text_of (month p)) \<longrightarrow>
          list_all decimal_char (text_of (month p)) \<and> length (text_of (month p)) \<le> 2)
     \<and> short_number (day p)"

section \<open>The fetch loop of \<^verbatim>\<open>main\<close>\<close>

text \<open>
  An adapter performs network requests, so it is a parameter here: a function from the
  keyword to the records it returns or the exception it raises.
\<close>

type_synonym fetcher = "string \<Rightarrow> py_error + PaperRecord list"

datatype log_entry =
    LogWarningUnsupported string
  | LogErrorFailed string string py_error

record run_state =
  all_records :: "PaperRecord list"
  log :: "log_entry list"

text \<open>The dictionary \<^verbatim>\<open>fetchers\<close>, given the three adapters.\<close>

definition fetchers :: "fetcher \<Rightarrow> fetcher \<Rightarrow> fetcher \<Rightarrow> (string \<times> fetcher) list" where
  "fetchers fetch_pubmed fetch_crossref fetch_openalex =
     [(''pubmed'', fetch_pubmed), (''crossref'', fetch_crossref), (''openalex'', fetch_openalex)]"

text \<open>The inner loop, over the keywords, with its \<^verbatim>\<open>try\<close> and \<^verbatim>\<open>except Exception\<close>.\<close>

fun fetch_keywords :: "fetcher \<Rightarrow> string \<Rightarrow> string list \<Rightarrow> run_state \<Rightarrow> run_state" where
  "fetch_keywords fetcher src [] st = st"
| "fetch_keywords fetcher src (kw # kws) st =
     fetch_keywords fetcher src kws
       (case fetcher kw of
          Inr source_records \<Rightarrow> st\<lparr>all_records := all_records st @ source_records\<rparr>
        | Inl exc \<Rightarrow> st\<lparr>log := log st @ [LogErrorFailed src kw exc]\<rparr>)"

text \<open>The outer loop, over the sources.\<close>

fun fetch_sources :: "(string \<times> fetcher) list \<Rightarrow> string list \<Rightarrow> string list \<Rightarrow> run_state \<Rightarrow> run_state" where
  "fetch_sources fs keywords [] st = st"
| "fetch_sources fs keywords (src # srcs) st =
     (case map_of fs (lower src) of
        None \<Rightarrow> fetch_sources fs keywords srcs (st\<lparr>log := log st @ [LogWarningUnsupported src]\<rparr>)
      | Some fetcher \<Rightarrow> fetch_sources fs keywords srcs (fetch_keywords fetcher src keywords st))"

definition collect_records :: "(string \<times> fetcher) list \<Rightarrow> string list \<Rightarrow> string list \<Rightarrow> run_state" where
  "collect_records fs sources keywords =
     fetch_sources fs keywords sources \<lparr>all_records = [], log = []\<rparr>"

text \<open>
  What one (source, keyword) pair contributes: nothing when the source is not a key of
  \<^verbatim>\<open>fetchers\<close> or when the adapter raises, the adapter's records otherwise.
\<close>

definition pair_records :: "(string \<times> fetcher) list \<Rightarrow> string \<Rightarrow> string \<Rightarrow> PaperRecord list" where
  "pair_records fs src kw =
     (case map_of fs (lower src) of
        None \<Rightarrow> []
      | Some fetcher \<Rightarrow> (case fetcher kw of Inl exc \<Rightarrow> [] | Inr source_records \<Rightarrow> source_records))"

definition is_warning :: "log_entry \<Rightarrow> bool" where
  "is_warning e = (case e of LogWarningUnsupported s \<Rightarrow> True | LogErrorFailed s k x \<Rightarrow> False)"

text \<open>Adapters used to run the loop: one returns a record, one raises, one returns two.\<close>

definition example_fetch_ok :: fetcher where
  "example_fetch_ok kw = Inr [example_pubmed\<lparr>keyword := kw\<rparr>]"

definition example_fetch_raises :: fetcher where
  "example_fetch_raises kw = (if kw = ''deep learning'' then Inl ValueError else Inr [example_crossref\<lparr>keyword := kw\<rparr>])"

definition example_fetch_two :: fetcher where
  "example_fetch_two kw = Inr [example_openalex\<lparr>keyword := kw\<rparr>, example_untitled ''OpenAlex'' kw []]"

section \<open>Decoding an inverted-index abstract\<close>

text \<open>
  The argument is \<^verbatim>\<open>None\<close> or a dictionary from words to lists of positions; the
  dictionary is the list of its items in iteration order. The inner loop writes
  \<^verbatim>\<open>positions[idx] = word\<close> for the positions of one word, the outer loop runs over the
  items.
\<close>

fun fill_word :: "string \<Rightarrow> int list \<Rightarrow> (int \<times> string) list \<Rightarrow> (int \<times> string) list" where
  "fill_word word [] positions = positions"
| "fill_word word (idx # idxs) positions = fill_word word idxs (dict_set idx word positions)"

fun fill_index :: "(string \<times> int list) list \<Rightarrow> (int \<times> string) list \<Rightarrow> (int \<times> string) list" where
  "fill_index [] positions = positions"
| "fill_index ((word, idxs) # items) positions = fill_index items (fill_word word idxs positions)"

text \<open>
  \<^verbatim>\<open>[positions[i] for i in sorted(positions)]\<close>: a lookup of a missing key would raise
  \<^verbatim>\<open>KeyError\<close>.
\<close>

definition decode_openalex_abstract :: "(string \<times> int list) list option \<Rightarrow> py_error + string" where
  "decode_openalex_abstract index =
     (case index of
        None \<Rightarrow> Inr []
      | Some items \<Rightarrow>
          if items = [] then Inr []
          else (let positions = fill_index items []
                in case those (map (map_of positions) (sort (map fst positions))) of
                     None \<Rightarrow> Inl KeyError
                   | Some abstract_words \<Rightarrow> Inr (join '' '' abstract_words)))"

text \<open>
  The specification's reading: all (position, word) pairs of the index, to be ordered by
  position.
\<close>

definition position_word_pairs :: "(string \<times> int list) list \<Rightarrow> (int \<times> string) list" where
  "position_word_pairs items = concat (map (\<lambda>(word, idxs). map (\<lambda>idx. (idx, word)) idxs) items)"

definition decode_spec :: "(string \<times> int list) list \<Rightarrow> string" where
  "decode_spec items = join '' '' (map snd (sort_key fst (position_word_pairs items)))"

text \<open>
  What the code does when a position is listed more than once: each position that occurs
  is taken once, in ascending order, with the word of the last pair that has this
  position (the word the loop wrote last).
\<close>

definition last_word_at :: "(int \<times> string) list \<Rightarrow> int \<Rightarrow> string" where
  "last_word_at ps k =
     (case rev (filter (\<lambda>p. fst p = k) ps) of [] \<Rightarrow> [] | p # earlier \<Rightarrow> snd p)"

definition decode_last_wins :: "(string \<times> int list) list \<Rightarrow> string" where
  "decode_last_wins items =
     (let ps = position_word_pairs items
      in join '' '' (map (last_word_at ps) (sort (remdups (map fst ps)))))"


text \<open>Writing a list of (position, word) pairs into a dictionary, one after the other.\<close>

definition write_all :: "(int \<times> string) list \<Rightarrow> (int \<times> string) list \<Rightarrow> (int \<times> string) list" where
  "write_all ps d = fold (\<lambda>(i, w). dict_set i w) ps d"

section \<open>Facts about dictionaries\<close>

lemma dict_mem_iff: "dict_mem k d \<longleftrightarrow> k \<in> fst ` set d"
  by (simp add: dict_mem_def map_of_eq_None_iff)

lemma dict_set_absent: "\<not> dict_mem k d \<Longrightarrow> dict_set k v d = d @ [(k, v)]"
  by (induction d) (auto simp: dict_mem_iff)

section \<open>Facts about the deduplication loop\<close>

lemma remdups_drop_mid: "k \<in> set bs \<Longrightarrow> remdups (as @ k # bs) = remdups (as @ bs)"
  by (induction as) auto

lemma first_occ_mid:
  "k \<in> set xs \<Longrightarrow> rev (remdups (rev (xs @ k # ys))) = rev (remdups (rev (xs @ ys)))"
  using remdups_drop_mid [of k "rev xs" "rev ys"] by simp

lemma dedup_loop_keys:
  "map fst (dedup_loop seen rs) = rev (remdups (rev (map fst seen @ map identity_key rs)))"
  if "distinct (map fst seen)"
  using that
proof (induction rs arbitrary: seen)
  case Nil
  then show ?case by (simp add: distinct_remdups_id)
next
  case (Cons r rs)
  show ?case
  proof (cases "dict_mem (identity_key r) seen")
    case True
    then have "identity_key r \<in> set (map fst seen)" by (simp add: dict_mem_iff)
    then show ?thesis
      using True Cons.IH [OF Cons.prems] first_occ_mid [of "identity_key r" "map fst seen" "map identity_key rs"]
      by simp
  next
    case False
    then have d: "distinct (map fst (seen @ [(identity_key r, r)]))"
      using Cons.prems by (simp add: dict_mem_iff)
    show ?thesis
      using False Cons.IH [OF d] by (simp add: dict_set_absent)
  qed
qed

lemma dedup_loop_first:
  "(k, r) \<in> set (dedup_loop seen rs) \<Longrightarrow>
     (k, r) \<in> set seen \<or> (k \<notin> fst ` set seen \<and> k = identity_key r \<and> find (\<lambda>x. identity_key x = k) rs = Some r)"
proof (induction rs arbitrary: seen)
  case Nil
  then show ?case by simp
next
  case (Cons x rs)
  show ?case
  proof (cases "dict_mem (identity_key x) seen")
    case True
    then have "(k, r) \<in> set (dedup_loop seen rs)" using Cons.prems by simp
    from Cons.IH [OF this] True show ?thesis
      by (auto simp: dict_mem_iff)
  next
    case False
    then have "(k, r) \<in> set (dedup_loop (seen @ [(identity_key x, x)]) rs)"
      using Cons.prems by (simp add: dict_set_absent)
    from Cons.IH [OF this] False show ?thesis
      by (auto simp: dict_mem_iff)
  qed
qed

lemma dedup_loop_distinct_id:
  "distinct (map fst seen @ map identity_key rs) \<Longrightarrow>
     dedup_loop seen rs = seen @ map (\<lambda>r. (identity_key r, r)) rs"
proof (induction rs arbitrary: seen)
  case Nil
  then show ?case by simp
next
  case (Cons x rs)
  then have nm: "\<not> dict_mem (identity_key x) seen" by (auto simp: dict_mem_iff)
  have "distinct (map fst (seen @ [(identity_key x, x)]) @ map identity_key rs)"
    using Cons.prems by auto
  from Cons.IH [OF this] nm show ?case by (simp add: dict_set_absent)
qed

lemma dedup_loop_length: "length (dedup_loop seen rs) \<le> length seen + length rs"
proof (induction rs arbitrary: seen)
  case Nil
  then show ?case by simp
next
  case (Cons x rs)
  show ?case
    using Cons.IH [of seen] Cons.IH [of "seen @ [(identity_key x, x)]"]
    by (cases "dict_mem (identity_key x) seen") (simp_all add: dict_set_absent)
qed

lemma dedup_keys:
  "map identity_key (deduplicate_records rs) = rev (remdups (rev (map identity_key rs)))"
proof -
  have "\<forall>(k, r) \<in> set (dedup_loop [] rs). k = identity_key r"
    using dedup_loop_first [of _ _ "[]" rs] by auto
  then have "map identity_key (map snd (dedup_loop [] rs)) = map fst (dedup_loop [] rs)"
    by (auto simp: map_eq_conv)
  then show ?thesis
    using dedup_loop_keys [of "[]" rs] by (simp add: deduplicate_records_def dict_values_def)
qed

lemma dedup_distinct: "distinct (map identity_key (deduplicate_records rs))"
  by (simp add: dedup_keys)

lemma dedup_fixpoint: "distinct (map identity_key rs) \<Longrightarrow> deduplicate_records rs = rs"
  using dedup_loop_distinct_id [of "[]" rs]
  by (simp add: deduplicate_records_def dict_values_def comp_def)

lemma dedup_is_first:
  "r \<in> set (deduplicate_records rs) \<Longrightarrow> find (\<lambda>x. identity_key x = identity_key r) rs = Some r"
proof -
  assume "r \<in> set (deduplicate_records rs)"
  then obtain k where "(k, r) \<in> set (dedup_loop [] rs)"
    by (auto simp: deduplicate_records_def dict_values_def)
  from dedup_loop_first [OF this] show ?thesis by auto
qed

lemma dedup_pair_same: "identity_key r2 = identity_key r1 \<Longrightarrow> deduplicate_records [r1, r2] = [r1]"
  by (simp add: deduplicate_records_def dict_values_def dict_mem_def)

lemma dedup_pair_diff: "identity_key r2 \<noteq> identity_key r1 \<Longrightarrow> deduplicate_records [r1, r2] = [r1, r2]"
  by (simp add: deduplicate_records_def dict_values_def dict_mem_def)

lemma identity_key_doi: "doi r \<noteq> [] \<Longrightarrow> identity_key r = lower (doi r)"
  by (simp add: identity_key_def lower_def)

lemma identity_key_no_doi:
  "doi r = [] \<Longrightarrow> identity_key r = ''title:'' @ strip (lower (title r)) @ ''|date:'' @ publication_date r"
  by (simp add: identity_key_def)

lemma filter_same_key_le_1:
  assumes "distinct (map f xs)" and "\<And>x. x \<in> set xs \<Longrightarrow> P x \<Longrightarrow> f x = c"
  shows "length (filter P xs) \<le> 1"
proof -
  have "distinct (map f (filter P xs))" using assms(1) by (rule distinct_map_filter)
  moreover have "map f (filter P xs) = replicate (length (filter P xs)) c"
    using assms(2) by (induction xs) auto
  ultimately have "distinct (replicate (length (filter P xs)) c)" by simp
  then show ?thesis by (cases "length (filter P xs)") (auto simp: Suc_le_eq)
qed

lemma dedup_loop_snoc:
  "dedup_loop seen (rs @ [r]) =
     (if dict_mem (identity_key r) (dedup_loop seen rs) then dedup_loop seen rs
      else dedup_loop seen rs @ [(identity_key r, r)])"
  by (induction rs arbitrary: seen) (simp_all add: dict_set_absent Let_def)

lemma dedup_key_set: "fst ` set (dedup_loop [] rs) = identity_key ` set rs"
proof -
  have "set (map fst (dedup_loop [] rs)) = set (rev (remdups (rev (map identity_key rs))))"
    using dedup_loop_keys [of "[]" rs] by simp
  then show ?thesis by simp
qed

lemma dedup_snoc:
  "deduplicate_records (rs @ [r]) =
     deduplicate_records rs @ (if identity_key r \<in> identity_key ` set rs then [] else [r])"
  by (simp add: deduplicate_records_def dict_values_def dedup_loop_snoc dict_mem_iff dedup_key_set)

lemma dedup_index:
  "deduplicate_records rs = map (\<lambda>i. rs ! i) (filter (first_with_key rs) [0..<length rs])"
proof (induction rs rule: rev_induct)
  case Nil
  show ?case by (simp add: deduplicate_records_def dict_values_def)
next
  case (snoc r rs)
  have a: "filter (first_with_key (rs @ [r])) [0..<length rs] = filter (first_with_key rs) [0..<length rs]"
    by (rule filter_cong) (auto simp: first_with_key_def nth_append)
  have b: "map (\<lambda>i. (rs @ [r]) ! i) (filter (first_with_key rs) [0..<length rs])
         = map (\<lambda>i. rs ! i) (filter (first_with_key rs) [0..<length rs])"
    by (rule map_cong) (auto simp: nth_append)
  have c: "first_with_key (rs @ [r]) (length rs) \<longleftrightarrow> identity_key r \<notin> identity_key ` set rs"
    by (auto simp: first_with_key_def nth_append in_set_conv_nth image_iff) (metis nth_mem)
  show ?case
    using snoc.IH a b c by (simp add: dedup_snoc)
qed

lemma takeWhile_until:
  "\<forall>x \<in> set xs. x \<noteq> c \<Longrightarrow> takeWhile (\<lambda>x. x \<noteq> c) (xs @ c # ys) = xs"
  by (induction xs) auto

lemma sep_inj:
  assumes "t1 @ ''|date:'' @ d1 = t2 @ ''|date:'' @ d2"
    and "CHR ''|'' \<notin> set d1" and "CHR ''|'' \<notin> set d2"
  shows "t1 = t2 \<and> d1 = d2"
proof -
  have tw: "takeWhile (\<lambda>x. x \<noteq> CHR ''|'') (rev (t @ ''|date:'' @ d)) = rev d @ '':etad''"
    if "CHR ''|'' \<notin> set d" for t d :: string
  proof -
    have "rev (t @ ''|date:'' @ d) = (rev d @ '':etad'') @ CHR ''|'' # rev t" by simp
    moreover have "\<forall>x \<in> set (rev d @ '':etad''). x \<noteq> CHR ''|''" using that by auto
    ultimately show ?thesis by (simp only: takeWhile_until)
  qed
  have "takeWhile (\<lambda>x. x \<noteq> CHR ''|'') (rev (t1 @ ''|date:'' @ d1))
      = takeWhile (\<lambda>x. x \<noteq> CHR ''|'') (rev (t2 @ ''|date:'' @ d2))"
    by (simp only: assms(1))
  then have "rev d1 @ '':etad'' = rev d2 @ '':etad''"
    by (simp only: tw [OF assms(2)] tw [OF assms(3)])
  then have "d1 = d2" by simp
  with assms(1) show ?thesis by simp
qed

section \<open>Deduplication: the properties\<close>

text \<open>
  C1. \<^verbatim>\<open>deduplicate_records\<close> returns exactly the records that stand at the first
  position of their identity key, unchanged and in input order: the output is the input
  restricted to the positions \<open>i\<close> whose key occurs at no position \<open>j < i\<close>. Every
  returned record is the first record of the input with its key, so a later record with
  the same key is dropped whole and nothing of it is merged. In particular, of two
  records with the same (present, that is non-empty) DOI only the first is kept, whatever
  their titles are.
\<close>

theorem dedup_first_write_wins:
  "deduplicate_records rs = map (\<lambda>i. rs ! i) (filter (first_with_key rs) [0..<length rs])
   \<and> (\<forall>r \<in> set (deduplicate_records rs).
         find (\<lambda>x. identity_key x = identity_key r) rs = Some r)
   \<and> (doi r1 \<noteq> [] \<and> doi r2 = doi r1 \<longrightarrow> deduplicate_records [r1, r2] = [r1])"
proof (intro conjI impI ballI)
  show "deduplicate_records rs = map (\<lambda>i. rs ! i) (filter (first_with_key rs) [0..<length rs])"
    by (rule dedup_index)
next
  fix r assume "r \<in> set (deduplicate_records rs)"
  then show "find (\<lambda>x. identity_key x = identity_key r) rs = Some r"
    by (rule dedup_is_first)
next
  assume "doi r1 \<noteq> [] \<and> doi r2 = doi r1"
  then have "identity_key r2 = identity_key r1"
    by (simp add: identity_key_doi)
  then show "deduplicate_records [r1, r2] = [r1]"
    by (rule dedup_pair_same)
qed

theorem dedup_first_write_wins_witness:
  "deduplicate_records [example_pubmed, example_crossref, example_openalex]
     = map (\<lambda>i. [example_pubmed, example_crossref, example_openalex] ! i)
         (filter (first_with_key [example_pubmed, example_crossref, example_openalex]) [0..<3])
   \<and> example_openalex \<in> set (deduplicate_records [example_pubmed, example_crossref, example_openalex])
   \<and> find (\<lambda>x. identity_key x = identity_key example_openalex)
         [example_pubmed, example_crossref, example_openalex] = Some example_openalex
   \<and> doi example_pubmed \<noteq> []
   \<and> doi (example_crossref\<lparr>doi := ''10.1/X''\<rparr>) = doi example_pubmed
   \<and> title (example_crossref\<lparr>doi := ''10.1/X''\<rparr>) \<noteq> title example_pubmed
   \<and> deduplicate_records [example_pubmed, example_crossref\<lparr>doi := ''10.1/X''\<rparr>] = [example_pubmed]"
proof -
  note t = dedup_first_write_wins
    [of "[example_pubmed, example_crossref, example_openalex]"
        example_pubmed "example_crossref\<lparr>doi := ''10.1/X''\<rparr>"]
  have m: "example_openalex \<in> set (deduplicate_records [example_pubmed, example_crossref, example_openalex])"
    by code_simp
  have d: "doi example_pubmed \<noteq> [] \<and> doi (example_crossref\<lparr>doi := ''10.1/X''\<rparr>) = doi example_pubmed"
    by (simp add: example_pubmed_def example_crossref_def)
  have n: "title (example_crossref\<lparr>doi := ''10.1/X''\<rparr>) \<noteq> title example_pubmed"
    by (simp add: example_pubmed_def example_crossref_def)
  have l: "[0..<length [example_pubmed, example_crossref, example_openalex]] = [0..<3]"
    by (simp add: numeral_3_eq_3)
  from t m d n show ?thesis unfolding l by blast
qed

text \<open>
  C2. Deduplicating twice gives what deduplicating once gives, the output is never
  longer than the input, and the identity keys of the output records are pairwise
  distinct.
\<close>

theorem dedup_idempotent_reduction:
  "deduplicate_records (deduplicate_records rs) = deduplicate_records rs
   \<and> length (deduplicate_records rs) \<le> length rs
   \<and> distinct (map identity_key (deduplicate_records rs))"
proof (intro conjI)
  show "deduplicate_records (deduplicate_records rs) = deduplicate_records rs"
    by (rule dedup_fixpoint) (rule dedup_distinct)
next
  show "length (deduplicate_records rs) \<le> length rs"
    using dedup_loop_length [of "[]" rs] by (simp add: deduplicate_records_def dict_values_def)
next
  show "distinct (map identity_key (deduplicate_records rs))"
    by (rule dedup_distinct)
qed

theorem dedup_idempotent_reduction_witness:
  "deduplicate_records [example_pubmed, example_crossref, example_openalex]
     = [example_pubmed, example_openalex]
   \<and> deduplicate_records [example_pubmed, example_openalex] = [example_pubmed, example_openalex]
   \<and> distinct (map identity_key [example_pubmed, example_openalex])"
proof -
  have e: "deduplicate_records [example_pubmed, example_crossref, example_openalex]
     = [example_pubmed, example_openalex]"
    by code_simp
  show ?thesis
    using dedup_idempotent_reduction [of "[example_pubmed, example_crossref, example_openalex]"]
    unfolding e by simp
qed

text \<open>
  C3, as the code has it. Two records without a DOI and with equal normalised titles
  (lowercased, then stripped of leading and trailing whitespace) and equal
  \<^verbatim>\<open>publication_date\<close> collapse to the first. When neither \<^verbatim>\<open>publication_date\<close>
  contains the character \<^verbatim>\<open>|\<close>, they collapse exactly in that case, and two such
  records with different dates are both kept.
\<close>

theorem dedup_fallback_identity:
  "doi r1 = [] \<and> doi r2 = [] \<longrightarrow>
     (strip (lower (title r1)) = strip (lower (title r2))
        \<and> publication_date r1 = publication_date r2
        \<longrightarrow> deduplicate_records [r1, r2] = [r1])
   \<and> (CHR ''|'' \<notin> set (publication_date r1) \<and> CHR ''|'' \<notin> set (publication_date r2) \<longrightarrow>
        (deduplicate_records [r1, r2] = [r1] \<longleftrightarrow>
           strip (lower (title r1)) = strip (lower (title r2))
           \<and> publication_date r1 = publication_date r2)
        \<and> (publication_date r1 \<noteq> publication_date r2
             \<longrightarrow> deduplicate_records [r1, r2] = [r1, r2]))"
proof (intro impI)
  assume nd: "doi r1 = [] \<and> doi r2 = []"
  let ?same = "strip (lower (title r1)) = strip (lower (title r2))
        \<and> publication_date r1 = publication_date r2"
  have k1: "identity_key r1 = ''title:'' @ strip (lower (title r1)) @ ''|date:'' @ publication_date r1"
    and k2: "identity_key r2 = ''title:'' @ strip (lower (title r2)) @ ''|date:'' @ publication_date r2"
    using nd by (simp_all add: identity_key_no_doi)
  have a: "deduplicate_records [r1, r2] = [r1]" if ?same
    using that k1 k2 by (intro dedup_pair_same) simp
  have b: "identity_key r2 \<noteq> identity_key r1"
    if "CHR ''|'' \<notin> set (publication_date r1)" "CHR ''|'' \<notin> set (publication_date r2)" "\<not> ?same"
  proof
    assume "identity_key r2 = identity_key r1"
    then have "strip (lower (title r1)) @ ''|date:'' @ publication_date r1
             = strip (lower (title r2)) @ ''|date:'' @ publication_date r2"
      using k1 k2 by simp
    from sep_inj [OF this that(1) that(2)] that(3) show False by simp
  qed
  show "(?same \<longrightarrow> deduplicate_records [r1, r2] = [r1])
   \<and> (CHR ''|'' \<notin> set (publication_date r1) \<and> CHR ''|'' \<notin> set (publication_date r2) \<longrightarrow>
        (deduplicate_records [r1, r2] = [r1] \<longleftrightarrow> ?same)
        \<and> (publication_date r1 \<noteq> publication_date r2
             \<longrightarrow> deduplicate_records [r1, r2] = [r1, r2]))"
  proof (intro conjI impI)
    assume ?same
    then show "deduplicate_records [r1, r2] = [r1]" by (rule a)
  next
    assume bars: "CHR ''|'' \<notin> set (publication_date r1) \<and> CHR ''|'' \<notin> set (publication_date r2)"
    show "deduplicate_records [r1, r2] = [r1] \<longleftrightarrow> ?same"
    proof
      assume one: "deduplicate_records [r1, r2] = [r1]"
      show ?same
      proof (rule ccontr)
        assume "\<not> ?same"
        with bars have "identity_key r2 \<noteq> identity_key r1" by (intro b) simp_all
        then have "deduplicate_records [r1, r2] = [r1, r2]" by (rule dedup_pair_diff)
        with one show False by simp
      qed
    next
      assume ?same
      then show "deduplicate_records [r1, r2] = [r1]" by (rule a)
    qed
  next
    assume bars: "CHR ''|'' \<notin> set (publication_date r1) \<and> CHR ''|'' \<notin> set (publication_date r2)"
      and "publication_date r1 \<noteq> publication_date r2"
    then have "identity_key r2 \<noteq> identity_key r1" by (intro b) simp_all
    then show "deduplicate_records [r1, r2] = [r1, r2]" by (rule dedup_pair_diff)
  qed
qed

theorem dedup_fallback_identity_witness:
  "deduplicate_records [example_untitled ''PubMed'' ''  Valve STUDY '' ''2024-03'',
                        example_untitled ''OpenAlex'' ''valve study'' ''2024-03'']
     = [example_untitled ''PubMed'' ''  Valve STUDY '' ''2024-03'']
   \<and> deduplicate_records [example_untitled ''PubMed'' ''  Valve STUDY '' ''2024-03'',
                          example_untitled ''OpenAlex'' ''valve study'' ''2024'']
     = [example_untitled ''PubMed'' ''  Valve STUDY '' ''2024-03'',
        example_untitled ''OpenAlex'' ''valve study'' ''2024'']"
proof -
  let ?a = "example_untitled ''PubMed'' ''  Valve STUDY '' ''2024-03''"
  let ?b = "example_untitled ''OpenAlex'' ''valve study'' ''2024-03''"
  let ?c = "example_untitled ''OpenAlex'' ''valve study'' ''2024''"
  have h: "doi ?a = [] \<and> doi ?b = [] \<and> doi ?c = []"
    by (simp add: example_untitled_def)
  have t: "strip (lower (title ?a)) = strip (lower (title ?b))"
    by code_simp
  have p: "publication_date ?a = publication_date ?b \<and> publication_date ?a \<noteq> publication_date ?c
    \<and> CHR ''|'' \<notin> set (publication_date ?a) \<and> CHR ''|'' \<notin> set (publication_date ?c)"
    by (simp add: example_untitled_def)
  show ?thesis
    using dedup_fallback_identity [of ?a ?b] dedup_fallback_identity [of ?a ?c] h t p
    by blast
qed

text \<open>
  The statement of C3 without the condition on the dates fails: the two records below
  have no DOI, different titles and different dates, and the second is dropped.
\<close>

theorem dedup_fallback_counterexample:
  "doi (example_untitled ''PubMed'' ''a|date:b'' []) = []
   \<and> doi (example_untitled ''OpenAlex'' ''a'' ''b|date:'') = []
   \<and> publication_date (example_untitled ''PubMed'' ''a|date:b'' [])
       \<noteq> publication_date (example_untitled ''OpenAlex'' ''a'' ''b|date:'')
   \<and> strip (lower (title (example_untitled ''PubMed'' ''a|date:b'' [])))
       \<noteq> strip (lower (title (example_untitled ''OpenAlex'' ''a'' ''b|date:'')))
   \<and> deduplicate_records [example_untitled ''PubMed'' ''a|date:b'' [],
                          example_untitled ''OpenAlex'' ''a'' ''b|date:'']
       = [example_untitled ''PubMed'' ''a|date:b'' []]
   \<and> deduplicate_records [example_untitled ''PubMed'' ''a|date:b'' [],
                          example_untitled ''OpenAlex'' ''a'' ''b|date:'']
       \<noteq> [example_untitled ''PubMed'' ''a|date:b'' [],
           example_untitled ''OpenAlex'' ''a'' ''b|date:'']"
  by code_simp

text \<open>
  C10. A record with no DOI, a title that is empty after lowercasing and stripping, and
  no date has the identity key \<^verbatim>\<open>title:|date:\<close>, whatever its other fields are. So at
  most one such record is in the output of \<^verbatim>\<open>deduplicate_records\<close>, and of two such
  records only the first is kept.
\<close>

theorem dedup_blank_key_collapses:
  "(blank_key r \<longrightarrow> identity_key r = ''title:|date:'')
   \<and> length (filter blank_key (deduplicate_records rs)) \<le> 1
   \<and> (blank_key r1 \<and> blank_key r2 \<longrightarrow> deduplicate_records [r1, r2] = [r1])"
proof -
  have k: "identity_key x = ''title:|date:''" if "blank_key x" for x
    using that by (simp add: blank_key_def identity_key_def)
  have "length (filter blank_key (deduplicate_records rs)) \<le> 1"
    by (rule filter_same_key_le_1 [where f = identity_key and c = "''title:|date:''"])
       (simp_all add: dedup_distinct k)
  moreover have "deduplicate_records [r1, r2] = [r1]" if "blank_key r1 \<and> blank_key r2"
    using that by (intro dedup_pair_same) (simp add: k)
  ultimately show ?thesis using k by blast
qed

theorem dedup_blank_key_collapses_witness:
  "blank_key (example_untitled ''PubMed'' ''  '' [])
   \<and> blank_key (example_openalex\<lparr>title := [], doi := [], publication_date := []\<rparr>)
   \<and> identity_key (example_openalex\<lparr>title := [], doi := [], publication_date := []\<rparr>) = ''title:|date:''
   \<and> deduplicate_records [example_untitled ''PubMed'' ''  '' [],
                          example_openalex\<lparr>title := [], doi := [], publication_date := []\<rparr>]
       = [example_untitled ''PubMed'' ''  '' []]"
proof -
  have b: "blank_key (example_untitled ''PubMed'' ''  '' [])
     \<and> blank_key (example_openalex\<lparr>title := [], doi := [], publication_date := []\<rparr>)"
    by code_simp
  show ?thesis
    using b dedup_blank_key_collapses
      [of "example_openalex\<lparr>title := [], doi := [], publication_date := []\<rparr>" _
          "example_untitled ''PubMed'' ''  '' []"
          "example_openalex\<lparr>title := [], doi := [], publication_date := []\<rparr>"]
    by blast
qed

section \<open>The fetch loop: the properties\<close>

lemma fetch_keywords_records:
  "all_records (fetch_keywords f src kws st)
     = all_records st @ concat (map (\<lambda>kw. case f kw of Inl exc \<Rightarrow> [] | Inr rs \<Rightarrow> rs) kws)"
  by (induction kws arbitrary: st) (auto split: sum.splits)

lemma is_warning_simps:
  "is_warning (LogWarningUnsupported s)" "\<not> is_warning (LogErrorFailed s k x)"
  by (simp_all add: is_warning_def)

lemma fetch_keywords_warnings:
  "filter is_warning (log (fetch_keywords f src kws st)) = filter is_warning (log st)"
  by (induction kws arbitrary: st) (auto split: sum.splits simp: is_warning_simps)

lemma fetch_sources_records:
  "all_records (fetch_sources fs kws srcs st)
     = all_records st @ concat (map (\<lambda>src. concat (map (\<lambda>kw. pair_records fs src kw) kws)) srcs)"
proof (induction srcs arbitrary: st)
  case Nil
  show ?case by simp
next
  case (Cons src srcs)
  show ?case
  proof (cases "map_of fs (lower src)")
    case None
    then show ?thesis by (simp add: Cons.IH pair_records_def)
  next
    case (Some f)
    then show ?thesis by (simp add: Cons.IH pair_records_def fetch_keywords_records)
  qed
qed

lemma fetch_sources_warnings:
  "filter is_warning (log (fetch_sources fs kws srcs st))
     = filter is_warning (log st)
       @ map LogWarningUnsupported (filter (\<lambda>src. map_of fs (lower src) = None) srcs)"
proof (induction srcs arbitrary: st)
  case Nil
  show ?case by simp
next
  case (Cons src srcs)
  show ?case
    by (cases "map_of fs (lower src)")
       (simp_all add: Cons.IH fetch_keywords_warnings is_warning_simps)
qed

text \<open>
  C9. The loop of \<^verbatim>\<open>main\<close> always returns. The combined sequence is the concatenation,
  over the sources in order and for each source over the keywords in order, of what each
  (source, keyword) pair contributes: the adapter's records in the order the adapter
  returned them, and nothing for a pair whose adapter raised an exception or whose source
  is not a key of \<^verbatim>\<open>fetchers\<close>. Each unsupported source is logged with a warning and
  skipped. So the records of every pair whose adapter returned are in the combined
  sequence, whatever the other adapters did.
\<close>

theorem collect_records_isolates_failures:
  "all_records (collect_records fs sources keywords)
     = concat (map (\<lambda>src. concat (map (\<lambda>kw. pair_records fs src kw) keywords)) sources)
   \<and> filter is_warning (log (collect_records fs sources keywords))
     = map LogWarningUnsupported (filter (\<lambda>src. map_of fs (lower src) = None) sources)
   \<and> (\<forall>src \<in> set sources. \<forall>kw \<in> set keywords. \<forall>f rs.
        map_of fs (lower src) = Some f \<and> f kw = Inr rs
        \<longrightarrow> set rs \<subseteq> set (all_records (collect_records fs sources keywords)))"
proof (intro conjI ballI allI impI)
  show r: "all_records (collect_records fs sources keywords)
     = concat (map (\<lambda>src. concat (map (\<lambda>kw. pair_records fs src kw) keywords)) sources)"
    by (simp add: collect_records_def fetch_sources_records)
  show "filter is_warning (log (collect_records fs sources keywords))
     = map LogWarningUnsupported (filter (\<lambda>src. map_of fs (lower src) = None) sources)"
    by (simp add: collect_records_def fetch_sources_warnings)
  fix src kw f rs
  assume s: "src \<in> set sources" and k: "kw \<in> set keywords"
    and ok: "map_of fs (lower src) = Some f \<and> f kw = Inr rs"
  then have "pair_records fs src kw = rs" by (simp add: pair_records_def)
  then show "set rs \<subseteq> set (all_records (collect_records fs sources keywords))"
    unfolding r using s k by auto
qed

theorem collect_records_isolates_failures_witness:
  "all_records (collect_records (fetchers example_fetch_ok example_fetch_raises example_fetch_two)
       [''PubMed'', ''scopus'', ''crossref'', ''OpenAlex''] [''aortic stenosis'', ''deep learning''])
     = [example_pubmed\<lparr>keyword := ''aortic stenosis''\<rparr>,
        example_pubmed\<lparr>keyword := ''deep learning''\<rparr>,
        example_crossref\<lparr>keyword := ''aortic stenosis''\<rparr>,
        example_openalex\<lparr>keyword := ''aortic stenosis''\<rparr>,
        example_untitled ''OpenAlex'' ''aortic stenosis'' [],
        example_openalex\<lparr>keyword := ''deep learning''\<rparr>,
        example_untitled ''OpenAlex'' ''deep learning'' []]
   \<and> example_fetch_raises ''deep learning'' = Inl ValueError
   \<and> filter is_warning (log (collect_records (fetchers example_fetch_ok example_fetch_raises example_fetch_two)
       [''PubMed'', ''scopus'', ''crossref'', ''OpenAlex''] [''aortic stenosis'', ''deep learning'']))
     = [LogWarningUnsupported ''scopus'']
   \<and> set [example_pubmed\<lparr>keyword := ''deep learning''\<rparr>]
       \<subseteq> set (all_records (collect_records (fetchers example_fetch_ok example_fetch_raises example_fetch_two)
       [''PubMed'', ''scopus'', ''crossref'', ''OpenAlex''] [''aortic stenosis'', ''deep learning'']))"
proof -
  let ?fs = "fetchers example_fetch_ok example_fetch_raises example_fetch_two"
  let ?srcs = "[''PubMed'', ''scopus'', ''crossref'', ''OpenAlex'']"
  let ?kws = "[''aortic stenosis'', ''deep learning'']"
  note t = collect_records_isolates_failures [of ?fs ?srcs ?kws]
  have e: "concat (map (\<lambda>src. concat (map (\<lambda>kw. pair_records ?fs src kw) ?kws)) ?srcs)
     = [example_pubmed\<lparr>keyword := ''aortic stenosis''\<rparr>,
        example_pubmed\<lparr>keyword := ''deep learning''\<rparr>,
        example_crossref\<lparr>keyword := ''aortic stenosis''\<rparr>,
        example_openalex\<lparr>keyword := ''aortic stenosis''\<rparr>,
        example_untitled ''OpenAlex'' ''aortic stenosis'' [],
        example_openalex\<lparr>keyword := ''deep learning''\<rparr>,
        example_untitled ''OpenAlex'' ''deep learning'' []]"
    by code_simp
  have w: "map LogWarningUnsupported (filter (\<lambda>src. map_of ?fs (lower src) = None) ?srcs)
     = [LogWarningUnsupported ''scopus'']"
    by code_simp
  have x: "example_fetch_raises ''deep learning'' = Inl ValueError"
    by (simp add: example_fetch_raises_def)
  have m: "''PubMed'' \<in> set ?srcs" "''deep learning'' \<in> set ?kws"
    by simp_all
  have ok: "map_of ?fs (lower ''PubMed'') = Some example_fetch_ok
      \<and> example_fetch_ok ''deep learning'' = Inr [example_pubmed\<lparr>keyword := ''deep learning''\<rparr>]"
  proof -
    have "lower ''PubMed'' = ''pubmed''" by code_simp
    then show ?thesis by (simp add: fetchers_def example_fetch_ok_def)
  qed
  from t have "set [example_pubmed\<lparr>keyword := ''deep learning''\<rparr>]
       \<subseteq> set (all_records (collect_records ?fs ?srcs ?kws))"
    using m ok by blast
  with t e w x show ?thesis by simp
qed

section \<open>PubMed author names: the behaviour\<close>

text \<open>
  C8. For an \<^verbatim>\<open>Author\<close> entry with a last name and initials but no fore name and no
  collective name, the code appends the last name alone: the branch
  \<^verbatim>\<open>fore_name or last_name\<close> is taken, so the initials are not used.
\<close>

theorem pubmed_author_initials_not_used:
  "pubmed_author_name \<lparr>collective_name = None, last_name = Some ''Smith'',
       fore_name = None, initials = Some ''J''\<rparr> = Some ''Smith''
   \<and> pubmed_author_name \<lparr>collective_name = None, last_name = Some ''Smith'',
       fore_name = None, initials = Some ''J''\<rparr> \<noteq> Some ''J Smith''"
  by (simp add: pubmed_author_name_def truthy_def text_of_def)

section \<open>The abstract decoder: the properties\<close>

lemma map_of_dict_set: "map_of (dict_set k v d) = (map_of d)(k \<mapsto> v)"
  by (induction d) (auto simp: fun_eq_iff)

lemma keys_dict_set: "fst ` set (dict_set k v d) = insert k (fst ` set d)"
proof -
  have "dom (map_of (dict_set k v d)) = insert k (dom (map_of d))"
    by (simp add: map_of_dict_set)
  then show ?thesis by (simp only: dom_map_of_conv_image_fst)
qed

lemma distinct_dict_set: "distinct (map fst d) \<Longrightarrow> distinct (map fst (dict_set k v d))"
  by (induction d) (auto simp: keys_dict_set)

lemma fill_word_write: "fill_word w idxs d = write_all (map (\<lambda>idx. (idx, w)) idxs) d"
  by (induction idxs arbitrary: d) (simp_all add: write_all_def)

lemma fill_index_write: "fill_index items d = write_all (position_word_pairs items) d"
  by (induction items arbitrary: d)
     (auto simp: write_all_def position_word_pairs_def fill_word_write)

lemma write_all_map_of: "map_of (write_all ps d) = map_of d ++ map_of (rev ps)"
proof (induction ps arbitrary: d)
  case Nil
  show ?case by (simp add: write_all_def)
next
  case (Cons p ps)
  obtain i w where p: "p = (i, w)" by (cases p)
  have "map_of (write_all (p # ps) d) = map_of (dict_set i w d) ++ map_of (rev ps)"
    using Cons.IH [of "dict_set i w d"] by (simp add: write_all_def p)
  also have "\<dots> = map_of d ++ map_of (rev (p # ps))"
    by (simp add: map_of_dict_set p map_add_upd_left fun_eq_iff map_add_def split: option.splits)
  finally show ?case .
qed

lemma write_all_keys: "fst ` set (write_all ps d) = fst ` set d \<union> fst ` set ps"
proof -
  have "dom (map_of (write_all ps d)) = dom (map_of d) \<union> dom (map_of (rev ps))"
    by (simp add: write_all_map_of Un_commute)
  then show ?thesis by (simp only: dom_map_of_conv_image_fst set_rev)
qed

lemma write_all_distinct: "distinct (map fst d) \<Longrightarrow> distinct (map fst (write_all ps d))"
  by (induction ps arbitrary: d) (auto simp: write_all_def distinct_dict_set)

lemma those_map_total:
  "\<forall>x \<in> set xs. f x \<noteq> None \<Longrightarrow> those (map f xs) = Some (map (\<lambda>x. the (f x)) xs)"
  by (induction xs) auto

lemma map_insort_key: "map f (insort_key f x xs) = insort (f x) (map f xs)"
  by (induction xs) auto

lemma map_sort_key: "map f (sort_key f xs) = sort (map f xs)"
  by (induction xs) (simp_all add: map_insort_key)

lemma decode_words:
  assumes "items \<noteq> []"
  shows "decode_openalex_abstract (Some items)
    = Inr (join '' '' (map (\<lambda>k. the (map_of (fill_index items []) k))
                        (sort (map fst (fill_index items [])))))"
proof -
  let ?P = "fill_index items []"
  have "\<forall>k \<in> set (sort (map fst ?P)). map_of ?P k \<noteq> None"
    by (auto simp: map_of_eq_None_iff)
  then have "those (map (map_of ?P) (sort (map fst ?P)))
      = Some (map (\<lambda>k. the (map_of ?P k)) (sort (map fst ?P)))"
    by (rule those_map_total)
  then show ?thesis using assms by (simp add: decode_openalex_abstract_def Let_def)
qed

lemma filled_keys: "fst ` set (fill_index items []) = fst ` set (position_word_pairs items)"
  by (simp add: fill_index_write write_all_keys)

lemma filled_distinct: "distinct (map fst (fill_index items []))"
  by (simp add: fill_index_write write_all_distinct)

lemma filled_lookup: "map_of (fill_index items []) = map_of (rev (position_word_pairs items))"
  by (simp add: fill_index_write write_all_map_of)

lemma decode_agrees_with_spec:
  assumes "items \<noteq> []" and d: "distinct (map fst (position_word_pairs items))"
  shows "decode_openalex_abstract (Some items) = Inr (decode_spec items)"
proof -
  let ?ps = "position_word_pairs items"
  let ?P = "fill_index items []"
  have keys: "sort (map fst ?P) = sort (map fst ?ps)"
    by (rule sorted_distinct_set_unique) (simp_all add: filled_distinct d filled_keys)
  have look: "the (map_of ?P k) = w" if "(k, w) \<in> set ?ps" for k w
  proof -
    have "distinct (map fst (rev ?ps))" using d by (simp add: rev_map [symmetric])
    moreover have "(k, w) \<in> set (rev ?ps)" using that by simp
    ultimately have "map_of (rev ?ps) k = Some w" by (rule map_of_is_SomeI)
    then show ?thesis by (simp add: filled_lookup)
  qed
  have "map snd (sort_key fst ?ps) = map (\<lambda>p. the (map_of ?P (fst p))) (sort_key fst ?ps)"
    by (rule map_cong) (auto simp: look)
  also have "\<dots> = map (\<lambda>k. the (map_of ?P k)) (map fst (sort_key fst ?ps))"
    by (simp add: comp_def)
  also have "\<dots> = map (\<lambda>k. the (map_of ?P k)) (sort (map fst ?P))"
    by (simp only: map_sort_key keys)
  finally show ?thesis
    using decode_words [OF assms(1)] by (simp add: decode_spec_def)
qed

lemma map_of_first_match:
  "map_of qs k = (case filter (\<lambda>p. fst p = k) qs of [] \<Rightarrow> None | p # later \<Rightarrow> Some (snd p))"
  by (induction qs) auto

lemma last_word_at_lookup:
  "map_of (rev ps) k = Some w \<Longrightarrow> last_word_at ps k = w"
  by (auto simp: last_word_at_def map_of_first_match [of "rev ps" k] rev_filter
      split: list.splits)

lemma decode_is_last_wins:
  "decode_openalex_abstract (Some items) = Inr (decode_last_wins items)"
proof (cases "items = []")
  case True
  then show ?thesis
    by (simp add: decode_openalex_abstract_def decode_last_wins_def position_word_pairs_def)
next
  case False
  let ?ps = "position_word_pairs items"
  let ?P = "fill_index items []"
  have keys: "sort (map fst ?P) = sort (remdups (map fst ?ps))"
    by (rule sorted_distinct_set_unique) (simp_all add: filled_distinct filled_keys)
  have eq: "map (\<lambda>k. the (map_of ?P k)) (sort (remdups (map fst ?ps)))
      = map (last_word_at ?ps) (sort (remdups (map fst ?ps)))"
  proof (rule map_cong [OF refl])
    fix k assume "k \<in> set (sort (remdups (map fst ?ps)))"
    then have "k \<in> fst ` set (rev ?ps)" by simp
    then have "map_of (rev ?ps) k \<noteq> None" by (simp only: map_of_eq_None_iff not_not)
    then obtain w where w: "map_of (rev ?ps) k = Some w" by blast
    then show "the (map_of ?P k) = last_word_at ?ps k"
      by (simp add: filled_lookup last_word_at_lookup)
  qed
  have "decode_openalex_abstract (Some items)
      = Inr (join '' '' (map (\<lambda>k. the (map_of ?P k)) (sort (remdups (map fst ?ps)))))"
    using decode_words [OF False] by (simp only: keys)
  then show ?thesis
    unfolding decode_last_wins_def Let_def by (simp only: eq)
qed

text \<open>
  C7, as the code has it. \<^verbatim>\<open>decode_openalex_abstract\<close> returns the empty string for
  \<^verbatim>\<open>None\<close> and for the empty dictionary, and never raises. For every index it takes each
  position that occurs once, in strictly ascending order, with the word of the last pair
  listed for this position, and joins these words by single spaces. When no position is
  listed twice, these are all (position, word) pairs of the index, sorted by position.
  The index \<^verbatim>\<open>{"Deep": [0], "learning": [1], "rocks": [2]}\<close> decodes to
  \<^verbatim>\<open>Deep learning rocks\<close>.
\<close>

theorem decode_openalex_abstract_last_wins:
  "decode_openalex_abstract None = Inr []
   \<and> decode_openalex_abstract (Some []) = Inr []
   \<and> decode_openalex_abstract (Some items) = Inr (decode_last_wins items)
   \<and> (distinct (map fst (position_word_pairs items))
        \<longrightarrow> decode_openalex_abstract (Some items) = Inr (decode_spec items))
   \<and> decode_openalex_abstract (Some [(''Deep'', [0]), (''learning'', [1]), (''rocks'', [2])])
       = Inr ''Deep learning rocks''"
proof (intro conjI impI)
  show "decode_openalex_abstract None = Inr []"
    by (simp add: decode_openalex_abstract_def)
  show e: "decode_openalex_abstract (Some []) = Inr []"
    by (simp add: decode_openalex_abstract_def)
  show "decode_openalex_abstract (Some items) = Inr (decode_last_wins items)"
    by (rule decode_is_last_wins)
  show "decode_openalex_abstract (Some items) = Inr (decode_spec items)"
    if "distinct (map fst (position_word_pairs items))"
  proof (cases "items = []")
    case True
    then show ?thesis by (simp add: e decode_spec_def position_word_pairs_def)
  next
    case False
    then show ?thesis using that by (rule decode_agrees_with_spec)
  qed
  show "decode_openalex_abstract (Some [(''Deep'', [0]), (''learning'', [1]), (''rocks'', [2])])
       = Inr ''Deep learning rocks''"
    by code_simp
qed

theorem decode_openalex_abstract_last_wins_witness:
  "distinct (map fst (position_word_pairs
       [(''rocks'', [2, 4]), (''learning'', [1]), (''Deep'', [0]), (''hard'', [3])]))
   \<and> decode_openalex_abstract
       (Some [(''rocks'', [2, 4]), (''learning'', [1]), (''Deep'', [0]), (''hard'', [3])])
     = Inr ''Deep learning rocks hard rocks''
   \<and> decode_openalex_abstract (Some [(''a'', [0, 2]), (''b'', [1, 2])]) = Inr ''a b b''"
proof -
  let ?items = "[(''rocks'', [2, 4]), (''learning'', [1]), (''Deep'', [0]), (''hard'', [3])]"
  have d: "distinct (map fst (position_word_pairs ?items))"
    by code_simp
  have s: "decode_spec ?items = ''Deep learning rocks hard rocks''"
    by code_simp
  have l: "decode_last_wins [(''a'', [0, 2]), (''b'', [1, 2])] = ''a b b''"
    by code_simp
  from decode_openalex_abstract_last_wins [of ?items] d
  have "decode_openalex_abstract (Some ?items) = Inr (decode_spec ?items)"
    by blast
  then have a: "decode_openalex_abstract (Some ?items) = Inr ''Deep learning rocks hard rocks''"
    unfolding s .
  from decode_openalex_abstract_last_wins [of "[(''a'', [0, 2]), (''b'', [1, 2])]"]
  have "decode_openalex_abstract (Some [(''a'', [0, 2]), (''b'', [1, 2])])
      = Inr (decode_last_wins [(''a'', [0, 2]), (''b'', [1, 2])])"
    by blast
  then have b: "decode_openalex_abstract (Some [(''a'', [0, 2]), (''b'', [1, 2])]) = Inr ''a b b''"
    unfolding l .
  from a b d show ?thesis by blast
qed

text \<open>
  The statement of C7 for every index fails: when two words are listed at position 0,
  ordering all (position, word) pairs gives both words, and the code returns the second
  word only.
\<close>

theorem decode_openalex_abstract_counterexample:
  "decode_spec [(''a'', [0]), (''b'', [0])] = ''a b''
   \<and> decode_openalex_abstract (Some [(''a'', [0]), (''b'', [0])]) = Inr ''b''
   \<and> decode_openalex_abstract (Some [(''a'', [0]), (''b'', [0])])
       \<noteq> Inr (decode_spec [(''a'', [0]), (''b'', [0])])"
  by code_simp

section \<open>Facts about the string methods\<close>

lemma lower_char_idem: "lower_char (lower_char c) = lower_char c"
proof (cases "(65 \<le> (of_char c :: nat) \<and> (of_char c :: nat) \<le> 90)
    \<or> (192 \<le> (of_char c :: nat) \<and> (of_char c :: nat) \<le> 222 \<and> (of_char c :: nat) \<noteq> 215)")
  case True
  then have "(of_char c :: nat) + 32 < 256" by auto
  then have e: "(of_char (char_of (of_char c + 32 :: nat)) :: nat) = of_char c + 32"
    by simp
  have l: "lower_char c = char_of (of_char c + 32 :: nat)"
    using True by (simp add: lower_char_def Let_def)
  show ?thesis
    unfolding l using True by (auto simp: lower_char_def [of "char_of (of_char c + 32 :: nat)"] Let_def e)
next
  case False
  then have "lower_char c = c" by (auto simp: lower_char_def Let_def)
  then show ?thesis by simp
qed

lemma lower_idem: "lower (lower s) = lower s"
  by (simp add: lower_def lower_char_idem)

lemma lower_fixed_iff: "lower s = s \<longleftrightarrow> (\<forall>c \<in> set s. lower_char c = c)"
proof -
  have "map lower_char s = map (\<lambda>c. c) s \<longleftrightarrow> (\<forall>c \<in> set s. lower_char c = c)"
    by (rule map_eq_conv)
  then show ?thesis by (simp add: lower_def)
qed

lemma strip_subset: "set (strip s) \<subseteq> set s"
proof -
  have "set (dropWhile isspace (rev (dropWhile isspace s))) \<subseteq> set (rev (dropWhile isspace s))"
    by (meson set_dropWhileD subsetI)
  also have "\<dots> \<subseteq> set s" by (auto dest: set_dropWhileD)
  finally show ?thesis by (simp add: strip_def)
qed

lemma lower_strip_lower: "lower (strip (lower s)) = strip (lower s)"
proof -
  have "\<forall>c \<in> set (lower s). lower_char c = c"
    by (auto simp: lower_def lower_char_idem)
  then have "\<forall>c \<in> set (strip (lower s)). lower_char c = c"
    using strip_subset by blast
  then show ?thesis by (simp add: lower_fixed_iff)
qed

lemma dropWhile_snoc_not: "\<not> P x \<Longrightarrow> \<exists>zs. dropWhile P (ys @ [x]) = zs @ [x]"
  by (simp add: dropWhile_append)


lemma strip_idem: "strip (strip s) = strip s"
proof (cases "dropWhile isspace s")
  case Nil
  then have "strip s = []" by (simp only: strip_def rev.simps dropWhile.simps)
  moreover have "strip [] = []" by (simp add: strip_def)
  ultimately show ?thesis by simp
next
  case (Cons x t)
  then have nx: "\<not> isspace x" by (metis dropWhile_eq_Cons_conv)
  have "rev (dropWhile isspace s) = rev t @ [x]" using Cons by simp
  then obtain zs where zs: "dropWhile isspace (rev (dropWhile isspace s)) = zs @ [x]"
    using dropWhile_snoc_not [of isspace x "rev t"] nx by auto
  then have s1: "strip s = x # rev zs" by (simp add: strip_def)
  have h: "\<not> isspace (hd (zs @ [x]))"
  proof (cases zs)
    case Nil
    then show ?thesis using nx by simp
  next
    case (Cons z zs')
    then have "dropWhile isspace (rev (dropWhile isspace s)) = z # (zs' @ [x])" using zs by simp
    then have "\<not> isspace z" by (metis dropWhile_eq_Cons_conv)
    then show ?thesis using Cons by simp
  qed
  have k: "dropWhile isspace (zs @ [x]) = zs @ [x]"
    using h by (cases zs) simp_all
  have "strip (x # rev zs) = rev (dropWhile isspace (rev (x # rev zs)))"
    using nx by (simp add: strip_def)
  also have "\<dots> = x # rev zs" by (simp add: k)
  finally show ?thesis by (simp only: s1)
qed

lemma py_replace_prefix:
  "old \<noteq> [] \<Longrightarrow> py_replace old new (old @ s) = new @ py_replace old new s"
  by (cases old) simp_all

lemma py_replace_absent:
  "old \<noteq> [] \<Longrightarrow> \<not> contains old s \<Longrightarrow> py_replace old new s = s"
  by (induction s) auto















section \<open>The DOI and abstract fields: the properties\<close>

lemma join_separator_count:
  "length xs - 1 \<le> length (filter (\<lambda>c. c = s) (join [s] xs))"
  by (induction "[s]" xs rule: join.induct) simp_all




text \<open>
  What the three adapters do to the DOI. All strip surrounding whitespace and return the
  empty string for an absent or empty value. \<^verbatim>\<open>fetch_crossref\<close> lowercases.
  \<^verbatim>\<open>fetch_openalex\<close> deletes the text \<^verbatim>\<open>https://doi.org/\<close>. \<^verbatim>\<open>fetch_pubmed\<close> does neither.
\<close>

lemma doi_fields_of_adapters:
  "pubmed_doi None = [] \<and> crossref_doi None = [] \<and> openalex_doi None = []
   \<and> pubmed_doi (Some e) = strip (text_of (elem_text e))
   \<and> crossref_doi (Some s) = strip (lower s)
   \<and> lower (crossref_doi v) = crossref_doi v
   \<and> openalex_doi (Some (''https://doi.org/'' @ s)) = openalex_doi (Some s)
   \<and> (\<not> contains ''https://doi.org/'' s \<longrightarrow> openalex_doi (Some s) = strip s)
   \<and> strip (pubmed_doi x) = pubmed_doi x
   \<and> strip (crossref_doi v) = crossref_doi v
   \<and> strip (openalex_doi v) = openalex_doi v"
proof -
  have e: "strip [] = []" by (simp add: strip_def)
  have a: "pubmed_doi None = [] \<and> crossref_doi None = [] \<and> openalex_doi None = []"
    by (simp add: pubmed_doi_def crossref_doi_def openalex_doi_def truthy_def lower_def e)
  have b: "pubmed_doi (Some e) = strip (text_of (elem_text e))" for e
    by (cases "elem_text e") (auto simp: pubmed_doi_def truthy_def text_of_def e)
  have c: "crossref_doi (Some s) = strip (lower s)"
    by (simp add: crossref_doi_def truthy_def text_of_def lower_def)
  have d: "lower (crossref_doi v) = crossref_doi v"
    by (simp add: crossref_doi_def lower_strip_lower)
  have r: "openalex_doi (Some t) = strip (py_replace ''https://doi.org/'' [] t)" for t
    by (simp add: openalex_doi_def truthy_def text_of_def)
  have "py_replace ''https://doi.org/'' [] (''https://doi.org/'' @ s)
      = [] @ py_replace ''https://doi.org/'' [] s"
    by (rule py_replace_prefix) simp
  then have f: "openalex_doi (Some (''https://doi.org/'' @ s)) = openalex_doi (Some s)"
    by (simp only: r append_Nil)
  have g: "openalex_doi (Some s) = strip s" if "\<not> contains ''https://doi.org/'' s"
    using py_replace_absent [OF _ that, of "[]"] by (simp add: r)
  have h: "strip (pubmed_doi x) = pubmed_doi x"
    by (cases x) (simp_all add: b strip_idem, simp add: pubmed_doi_def e)
  have i: "strip (crossref_doi v) = crossref_doi v"
    by (simp add: crossref_doi_def strip_idem)
  have j: "strip (openalex_doi v) = openalex_doi v"
    by (simp add: openalex_doi_def strip_idem)
  from a b c d f g h i j show ?thesis by blast
qed

text \<open>
  C4. The code does not lowercase the DOI in two of the three adapters.
  \<^verbatim>\<open>fetch_crossref\<close> returns the DOI \<^verbatim>\<open>10.1/X\<close> as \<^verbatim>\<open>10.1/x\<close>, but \<^verbatim>\<open>fetch_pubmed\<close>
  returns it as \<^verbatim>\<open>10.1/X\<close>, and \<^verbatim>\<open>fetch_openalex\<close> returns \<^verbatim>\<open>https://doi.org/10.1/Y\<close> as
  \<^verbatim>\<open>10.1/Y\<close>. An absent DOI gives the empty string in all three.
\<close>

theorem adapter_doi_not_lowercased:
  "pubmed_doi (Some (Element ''ArticleId'' (Some ''10.1/X'') [] None)) = ''10.1/X''
   \<and> lower ''10.1/X'' = ''10.1/x''
   \<and> crossref_doi (Some ''10.1/X'') = ''10.1/x''
   \<and> openalex_doi (Some ''https://doi.org/10.1/Y'') = ''10.1/Y''
   \<and> lower ''10.1/Y'' = ''10.1/y''
   \<and> pubmed_doi None = [] \<and> crossref_doi None = [] \<and> openalex_doi None = []"
  by code_simp




section \<open>The publication date: the properties\<close>

lemma decimal_is_digit: "decimal_char c \<Longrightarrow> isdigit_char c"
  by (simp add: decimal_char_def isdigit_char_def Let_def)

lemma decimal_not_space: "decimal_char c \<Longrightarrow> \<not> int_space c"
  by (auto simp: decimal_char_def int_space_def Let_def)

lemma decimal_not_sign: "decimal_char c \<Longrightarrow> c \<noteq> CHR ''+'' \<and> c \<noteq> CHR ''-''"
  by (auto simp: decimal_char_def)

lemma digit_value_le: "decimal_char c \<Longrightarrow> digit_value c \<le> 9"
  by (auto simp: decimal_char_def digit_value_def Let_def)

lemma int_strip_decimals: "list_all decimal_char s \<Longrightarrow> int_strip s = s"
proof (cases s rule: rev_cases)
  case Nil
  then show ?thesis by (simp add: int_strip_def)
next
  case (snoc xs x)
  assume a: "list_all decimal_char s"
  have "s \<noteq> []" using snoc by simp
  then obtain c cs where ccs: "s = c # cs" by (cases s) auto
  then have "\<not> int_space c" using a by (auto dest: decimal_not_space)
  then have "dropWhile int_space s = s" by (simp add: ccs)
  moreover have "\<not> int_space x" using a snoc by (auto dest: decimal_not_space)
  ultimately show ?thesis using snoc by (simp add: int_strip_def)
qed

lemma py_int_short:
  assumes "list_all decimal_char s" and "s \<noteq> []" and "length s \<le> 2"
  shows "\<exists>n<100. py_int s = Inr (int n)"
proof -
  note all = assms(1)
  from assms(2,3) consider a where "s = [a]" | a b where "s = [a, b]"
    by (cases s rule: list.exhaust; cases "tl s"; auto)
  then show ?thesis
  proof cases
    case 1
    then have a: "decimal_char a" using all by simp
    have "py_int s = (case parse_nat s of None \<Rightarrow> Inl ValueError | Some n \<Rightarrow> Inr (int n))"
      unfolding py_int_def int_strip_decimals [OF all] Let_def
      using decimal_not_sign [OF a] by (simp add: 1)
    then have "py_int s = Inr (int (digit_value a))"
      using a by (simp add: 1 parse_nat_def)
    then show ?thesis using digit_value_le [OF a] by (intro exI [of _ "digit_value a"]) simp
  next
    case 2
    then have a: "decimal_char a" and b: "decimal_char b" using all by simp_all
    have "py_int s = (case parse_nat s of None \<Rightarrow> Inl ValueError | Some n \<Rightarrow> Inr (int n))"
      unfolding py_int_def int_strip_decimals [OF all] Let_def
      using decimal_not_sign [OF a] by (simp add: 2)
    then have "py_int s = Inr (int (10 * digit_value a + digit_value b))"
      using a b by (simp add: 2 parse_nat_def)
    then show ?thesis using digit_value_le [OF a] digit_value_le [OF b]
      by (intro exI [of _ "10 * digit_value a + digit_value b"]) simp
  qed
qed

lemma decimal_char_of: "m < 10 \<Longrightarrow> decimal_char (char_of (48 + m))" for m :: nat
proof -
  assume "m < 10"
  then have "(of_char (char_of (48 + m)) :: nat) = 48 + m" by simp
  then show ?thesis using \<open>m < 10\<close> by (simp add: decimal_char_def Let_def)
qed

lemma format_02d_short:
  assumes "n < 100"
  shows "\<exists>a b. format_02d (int n) = [a, b] \<and> decimal_char a \<and> decimal_char b"
proof (cases "n < 10")
  case True
  then have "format_02d (int n) = [CHR ''0'', char_of (48 + n)]"
    by (simp add: format_02d_def)
  moreover have "decimal_char CHR ''0''" by (simp add: decimal_char_def)
  ultimately show ?thesis using decimal_char_of [OF True] by blast
next
  case False
  then have d: "n div 10 < 10" and m: "n mod 10 < 10" using assms by simp_all
  have "str_of_nat n = str_of_nat (n div 10) @ [char_of (48 + n mod 10)]"
    using False by (subst str_of_nat.simps) simp
  also have "str_of_nat (n div 10) = [char_of (48 + n div 10)]"
    using d by (subst str_of_nat.simps) simp
  finally have "format_02d (int n) = [char_of (48 + n div 10), char_of (48 + n mod 10)]"
    by (simp add: format_02d_def)
  then show ?thesis using decimal_char_of [OF d] decimal_char_of [OF m] by blast
qed

lemma month_number_range:
  "strptime_b_month s = Some k \<Longrightarrow> k \<in> set [1, 2, 3, 4, 5, 6, 7, 8, 9, 10, 11, 12]"
proof -
  assume "strptime_b_month s = Some k"
  then have "(lower s, k) \<in> set month_abbreviations"
    unfolding strptime_b_month_def by (rule map_of_SomeD)
  then show ?thesis by (auto simp: month_abbreviations_def)
qed

lemma month_number_format:
  "\<forall>k \<in> set [1, 2, 3, 4, 5, 6, 7, 8, 9, 10, 11, 12 :: nat].
     length (format_02d (int k)) = 2 \<and> list_all decimal_char (format_02d (int k))
     \<and> py_int (format_02d (int k)) = Inr (int k)"
  by code_simp

lemma convert_month_short:
  assumes "isdigit (text_of m) \<longrightarrow> list_all decimal_char (text_of m) \<and> length (text_of m) \<le> 2"
  shows "short_number (convert_month m)"
proof (cases "truthy m \<and> \<not> isdigit (text_of m)")
  case False
  then show ?thesis using assms by (auto simp: convert_month_def short_number_def)
next
  case True
  show ?thesis
  proof (cases "strptime_b_month (take 3 (text_of m))")
    case None
    then show ?thesis using True by (simp add: convert_month_def short_number_def truthy_def)
  next
    case (Some k)
    from month_number_range [OF Some] month_number_format
    have "length (format_02d (int k)) = 2 \<and> list_all decimal_char (format_02d (int k))" by blast
    then show ?thesis
      using True Some by (simp add: convert_month_def short_number_def text_of_def)
  qed
qed

lemma short_number_value:
  assumes "short_number x" and "truthy x"
  shows "\<exists>a b. (\<exists>n. py_int (text_of x) = Inr n \<and> format_02d n = [a, b])
           \<and> decimal_char a \<and> decimal_char b"
proof -
  from assms have "list_all decimal_char (text_of x)" and "length (text_of x) \<le> 2"
    and "text_of x \<noteq> []"
    by (auto simp: short_number_def truthy_def text_of_def split: option.splits)
  then obtain n where n: "n < 100" "py_int (text_of x) = Inr (int n)"
    using py_int_short by blast
  from format_02d_short [OF n(1)] n(2) show ?thesis by blast
qed

lemma four_digits_text:
  assumes "four_digits y" and "truthy y"
  shows "\<exists>a b c d. text_of y = [a, b, c, d] \<and> decimal_char a \<and> decimal_char b
           \<and> decimal_char c \<and> decimal_char d"
proof -
  from assms have l: "length (text_of y) = 4" and a: "list_all decimal_char (text_of y)"
    by (auto simp: four_digits_def)
  from l obtain a b c d where "text_of y = [a, b, c, d]"
    by (auto simp: length_Suc_conv numeral_eq_Suc)
  with a show ?thesis by auto
qed

lemma assemble_date_plain:
  assumes y: "four_digits y" and m: "short_number m" and d: "short_number d"
  shows "\<exists>s. assemble_date y m d = Inr s \<and> four_granularity s"
proof (cases "truthy y")
  case False
  then show ?thesis by (simp add: assemble_date_def four_granularity_def)
next
  case ty: True
  from four_digits_text [OF y ty] obtain a b c e
    where yy: "text_of y = [a, b, c, e]"
      and dy: "decimal_char a" "decimal_char b" "decimal_char c" "decimal_char e" by blast
  show ?thesis
  proof (cases "truthy m")
    case False
    then show ?thesis using ty dy by (simp add: assemble_date_def four_granularity_def yy)
  next
    case tm: True
    from short_number_value [OF m tm] obtain m1 m2 mi
      where mm: "py_int (text_of m) = Inr mi" "format_02d mi = [m1, m2]"
        and dm: "decimal_char m1" "decimal_char m2" by blast
    show ?thesis
    proof (cases "truthy d")
      case False
      then show ?thesis
        using ty tm dy dm by (simp add: assemble_date_def four_granularity_def yy mm)
    next
      case td: True
      from short_number_value [OF d td] obtain d1 d2 di
        where dd: "py_int (text_of d) = Inr di" "format_02d di = [d1, d2]"
          and ddg: "decimal_char d1" "decimal_char d2" by blast
      show ?thesis
        using ty tm td dy dm ddg by (simp add: assemble_date_def four_granularity_def yy mm dd)
    qed
  qed
qed

lemma assemble_date_no_month: "\<not> truthy m \<Longrightarrow> assemble_date y m d = Inr (text_of y)"
  by (auto simp: assemble_date_def truthy_def text_of_def split: option.splits)

lemma assemble_date_month_number:
  assumes "py_int mm = Inr mi" and "mm \<noteq> []"
  shows "(\<not> truthy y \<longrightarrow> assemble_date y (Some mm) d = Inr [])
    \<and> (truthy y \<and> \<not> truthy d \<longrightarrow>
          assemble_date y (Some mm) d = Inr (text_of y @ ''-'' @ format_02d mi))
    \<and> (truthy y \<and> truthy d \<and> py_int (text_of d) = Inr di \<longrightarrow>
          assemble_date y (Some mm) d
            = Inr (text_of y @ ''-'' @ format_02d mi @ ''-'' @ format_02d di))"
  using assms by (simp add: assemble_date_def truthy_def text_of_def)

lemma extract_pubmed_date_found:
  "(find_pub_date j a = Some p \<and> month p = Some m \<and> m \<noteq> [] \<and> \<not> isdigit m
      \<and> strptime_b_month (take 3 m) = Some k \<longrightarrow>
      length (format_02d (int k)) = 2 \<and> list_all decimal_char (format_02d (int k))
      \<and> extract_pubmed_date j a
          = extract_pubmed_date (Some (p\<lparr>month := Some (format_02d (int k))\<rparr>)) None
      \<and> (\<not> truthy (year p) \<longrightarrow> extract_pubmed_date j a = Inr [])
      \<and> (truthy (year p) \<and> \<not> truthy (day p) \<longrightarrow>
            extract_pubmed_date j a = Inr (text_of (year p) @ ''-'' @ format_02d (int k)))
      \<and> (truthy (year p) \<and> truthy (day p) \<and> py_int (text_of (day p)) = Inr di \<longrightarrow>
            extract_pubmed_date j a
              = Inr (text_of (year p) @ ''-'' @ format_02d (int k) @ ''-'' @ format_02d di)))
   \<and> (find_pub_date j a = Some p \<and> month p = Some m \<and> m \<noteq> [] \<and> \<not> isdigit m
        \<and> strptime_b_month (take 3 m) = None \<longrightarrow>
        extract_pubmed_date j a = Inr (text_of (year p)))
   \<and> (find_pub_date j a = Some p \<and> plain_date_parts p \<longrightarrow>
        (\<exists>s. extract_pubmed_date j a = Inr s \<and> four_granularity s))
   \<and> (find_pub_date j a = None \<longrightarrow> extract_pubmed_date j a = Inr [])"
proof (intro conjI)
  show "find_pub_date j a = Some p \<and> month p = Some m \<and> m \<noteq> [] \<and> \<not> isdigit m
      \<and> strptime_b_month (take 3 m) = Some k \<longrightarrow>
      length (format_02d (int k)) = 2 \<and> list_all decimal_char (format_02d (int k))
      \<and> extract_pubmed_date j a
          = extract_pubmed_date (Some (p\<lparr>month := Some (format_02d (int k))\<rparr>)) None
      \<and> (\<not> truthy (year p) \<longrightarrow> extract_pubmed_date j a = Inr [])
      \<and> (truthy (year p) \<and> \<not> truthy (day p) \<longrightarrow>
            extract_pubmed_date j a = Inr (text_of (year p) @ ''-'' @ format_02d (int k)))
      \<and> (truthy (year p) \<and> truthy (day p) \<and> py_int (text_of (day p)) = Inr di \<longrightarrow>
            extract_pubmed_date j a
              = Inr (text_of (year p) @ ''-'' @ format_02d (int k) @ ''-'' @ format_02d di))"
  proof
    assume h: "find_pub_date j a = Some p \<and> month p = Some m \<and> m \<noteq> [] \<and> \<not> isdigit m
      \<and> strptime_b_month (take 3 m) = Some k"
    from month_number_range [of "take 3 m" k] month_number_format h
    have f: "length (format_02d (int k)) = 2 \<and> list_all decimal_char (format_02d (int k))
        \<and> py_int (format_02d (int k)) = Inr (int k)"
      by blast
    then have ne: "format_02d (int k) \<noteq> []" by auto
    have dg: "isdigit (format_02d (int k))"
      using f ne by (auto simp: isdigit_def list_all_iff dest: decimal_is_digit)
    have c1: "convert_month (Some m) = Some (format_02d (int k))"
      using h by (simp add: convert_month_def truthy_def text_of_def)
    have c2: "convert_month (Some (format_02d (int k))) = Some (format_02d (int k))"
      using dg by (simp add: convert_month_def text_of_def)
    have e: "extract_pubmed_date j a = assemble_date (year p) (Some (format_02d (int k))) (day p)"
      using h by (simp add: extract_pubmed_date_def c1)
    have e2: "extract_pubmed_date (Some (p\<lparr>month := Some (format_02d (int k))\<rparr>)) None
        = assemble_date (year p) (Some (format_02d (int k))) (day p)"
      by (simp add: extract_pubmed_date_def find_pub_date_def c2)
    from assemble_date_month_number [of "format_02d (int k)" "int k" "year p" "day p" di] f ne e e2
    show "length (format_02d (int k)) = 2 \<and> list_all decimal_char (format_02d (int k))
      \<and> extract_pubmed_date j a
          = extract_pubmed_date (Some (p\<lparr>month := Some (format_02d (int k))\<rparr>)) None
      \<and> (\<not> truthy (year p) \<longrightarrow> extract_pubmed_date j a = Inr [])
      \<and> (truthy (year p) \<and> \<not> truthy (day p) \<longrightarrow>
            extract_pubmed_date j a = Inr (text_of (year p) @ ''-'' @ format_02d (int k)))
      \<and> (truthy (year p) \<and> truthy (day p) \<and> py_int (text_of (day p)) = Inr di \<longrightarrow>
            extract_pubmed_date j a
              = Inr (text_of (year p) @ ''-'' @ format_02d (int k) @ ''-'' @ format_02d di))"
      by simp
  qed
next
  show "find_pub_date j a = Some p \<and> month p = Some m \<and> m \<noteq> [] \<and> \<not> isdigit m
        \<and> strptime_b_month (take 3 m) = None \<longrightarrow>
        extract_pubmed_date j a = Inr (text_of (year p))"
  proof
    assume h: "find_pub_date j a = Some p \<and> month p = Some m \<and> m \<noteq> [] \<and> \<not> isdigit m
        \<and> strptime_b_month (take 3 m) = None"
    then have "convert_month (Some m) = None"
      by (simp add: convert_month_def truthy_def text_of_def)
    then show "extract_pubmed_date j a = Inr (text_of (year p))"
      using h by (simp add: extract_pubmed_date_def assemble_date_no_month truthy_def)
  qed
next
  show "find_pub_date j a = Some p \<and> plain_date_parts p \<longrightarrow>
        (\<exists>s. extract_pubmed_date j a = Inr s \<and> four_granularity s)"
  proof
    assume h: "find_pub_date j a = Some p \<and> plain_date_parts p"
    then have e: "extract_pubmed_date j a = assemble_date (year p) (convert_month (month p)) (day p)"
      by (simp add: extract_pubmed_date_def)
    from h have "short_number (convert_month (month p))"
      by (intro convert_month_short) (simp add: plain_date_parts_def)
    with h show "\<exists>s. extract_pubmed_date j a = Inr s \<and> four_granularity s"
      unfolding e by (intro assemble_date_plain) (simp_all add: plain_date_parts_def)
  qed
next
  show "find_pub_date j a = None \<longrightarrow> extract_pubmed_date j a = Inr []"
    by (simp add: extract_pubmed_date_def)
qed

lemma find_pub_date_Some:
  "find_pub_date j a = Some p \<longleftrightarrow> j = Some p \<or> (j = None \<and> a = Some p)"
  by (auto simp: find_pub_date_def)

lemma find_pub_date_None: "find_pub_date j a = None \<longleftrightarrow> j = None \<and> a = None"
  by (auto simp: find_pub_date_def)

text \<open>
  C6, as the code has it. The date element is the first argument, or the second when
  the first is absent. A month of which \<^verbatim>\<open>isdigit\<close> is false is looked up by its first
  three characters among the month abbreviations, in any case. When it is found, the date
  is assembled as for the two-digit number of the month: the empty string without a year,
  year and month without a day, year, month and day when the day is a number. When it is
  not found the result is the year text alone, or the empty string without a year,
  whatever the day is, and no exception is raised. When the year has four decimal
  digits, a month of which \<^verbatim>\<open>isdigit\<close> is true one or two decimal digits and the day one or
  two decimal digits (each possibly absent or empty), the function returns a string of
  the form \<^verbatim>\<open>YYYY-MM-DD\<close>, \<^verbatim>\<open>YYYY-MM\<close>, \<^verbatim>\<open>YYYY\<close> or the empty string. Without a date
  element the result is the empty string.
\<close>

theorem extract_pubmed_date_month_fallback:
  "((j = Some p \<or> (j = None \<and> a = Some p)) \<and> month p = Some m \<and> m \<noteq> [] \<and> \<not> isdigit m
      \<and> strptime_b_month (take 3 m) = Some k \<longrightarrow>
      length (format_02d (int k)) = 2 \<and> list_all decimal_char (format_02d (int k))
      \<and> extract_pubmed_date j a
          = extract_pubmed_date (Some (p\<lparr>month := Some (format_02d (int k))\<rparr>)) None
      \<and> (\<not> truthy (year p) \<longrightarrow> extract_pubmed_date j a = Inr [])
      \<and> (truthy (year p) \<and> \<not> truthy (day p) \<longrightarrow>
            extract_pubmed_date j a = Inr (text_of (year p) @ ''-'' @ format_02d (int k)))
      \<and> (truthy (year p) \<and> truthy (day p) \<and> py_int (text_of (day p)) = Inr di \<longrightarrow>
            extract_pubmed_date j a
              = Inr (text_of (year p) @ ''-'' @ format_02d (int k) @ ''-'' @ format_02d di)))
   \<and> ((j = Some p \<or> (j = None \<and> a = Some p)) \<and> month p = Some m \<and> m \<noteq> [] \<and> \<not> isdigit m
        \<and> strptime_b_month (take 3 m) = None \<longrightarrow>
        extract_pubmed_date j a = Inr (text_of (year p)))
   \<and> ((j = Some p \<or> (j = None \<and> a = Some p)) \<and> plain_date_parts p \<longrightarrow>
        (\<exists>s. extract_pubmed_date j a = Inr s \<and> four_granularity s))
   \<and> (j = None \<and> a = None \<longrightarrow> extract_pubmed_date j a = Inr [])"
  using extract_pubmed_date_found [of j a p m k di]
  by (simp only: find_pub_date_Some find_pub_date_None)

theorem extract_pubmed_date_month_fallback_witness:
  "extract_pubmed_date None
       (Some \<lparr>year = Some ''2024'', month = Some ''March'', day = Some ''5''\<rparr>)
     = Inr ''2024-03-05''
   \<and> extract_pubmed_date
       (Some \<lparr>year = Some ''2024'', month = Some ''Spring'', day = Some ''5''\<rparr>) None
     = Inr ''2024''
   \<and> plain_date_parts \<lparr>year = Some ''2024'', month = Some ''3'', day = None\<rparr>
   \<and> extract_pubmed_date None
       (Some \<lparr>year = Some ''2024'', month = Some ''3'', day = None\<rparr>)
     = Inr ''2024-03''
   \<and> four_granularity ''2024-03''
   \<and> extract_pubmed_date None None = Inr []"
proof -
  let ?p1 = "\<lparr>year = Some ''2024'', month = Some ''March'', day = Some ''5''\<rparr>"
  let ?p2 = "\<lparr>year = Some ''2024'', month = Some ''Spring'', day = Some ''5''\<rparr>"
  let ?p3 = "\<lparr>year = Some ''2024'', month = Some ''3'', day = None\<rparr>"
  have h1: "month ?p1 = Some ''March''
      \<and> ''March'' \<noteq> [] \<and> \<not> isdigit ''March'' \<and> strptime_b_month (take 3 ''March'') = Some 3"
    by code_simp
  have d1: "truthy (year ?p1) \<and> truthy (day ?p1) \<and> py_int (text_of (day ?p1)) = Inr 5"
    by code_simp
  have f1: "text_of (year ?p1) @ ''-'' @ format_02d (int 3) @ ''-'' @ format_02d 5 = ''2024-03-05''"
    by code_simp
  from extract_pubmed_date_month_fallback
    [where j = None and a = "Some ?p1" and p = ?p1 and m = "''March''" and k = 3 and di = 5]
  have c1: "extract_pubmed_date None (Some ?p1) = Inr ''2024-03-05''"
    using h1 d1 unfolding f1 by blast
  have h2: "month ?p2 = Some ''Spring''
      \<and> ''Spring'' \<noteq> [] \<and> \<not> isdigit ''Spring'' \<and> strptime_b_month (take 3 ''Spring'') = None"
    by code_simp
  have t2: "text_of (year ?p2) = ''2024''"
    by (simp add: text_of_def)
  from extract_pubmed_date_month_fallback
    [where j = "Some ?p2" and a = None and p = ?p2 and m = "''Spring''"]
  have c2: "extract_pubmed_date (Some ?p2) None = Inr ''2024''"
    using h2 unfolding t2 by blast
  have h3: "plain_date_parts ?p3"
    by code_simp
  have v3: "extract_pubmed_date None (Some ?p3) = Inr ''2024-03''"
    by code_simp
  from extract_pubmed_date_month_fallback [where j = None and a = "Some ?p3" and p = ?p3]
  have "\<exists>s. extract_pubmed_date None (Some ?p3) = Inr s \<and> four_granularity s"
    using h3 by blast
  then have c3: "four_granularity ''2024-03''"
    unfolding v3 by simp
  from extract_pubmed_date_month_fallback [where j = None and a = None]
  have c4: "extract_pubmed_date None None = Inr []"
    by blast
  from c1 c2 h3 v3 c3 c4 show ?thesis by blast
qed

text \<open>
  The last part of C6 fails without the condition on the parts: for the year
  \<^verbatim>\<open>2024\<close> and the month \<^verbatim>\<open>123\<close> the result is \<^verbatim>\<open>2024-123\<close>, which has none of the
  four forms.
\<close>

theorem extract_pubmed_date_counterexample:
  "extract_pubmed_date (Some \<lparr>year = Some ''2024'', month = Some ''123'', day = None\<rparr>) None
     = Inr ''2024-123''
   \<and> \<not> four_granularity ''2024-123''"
  by code_simp

text \<open>
  The conversions by \<^verbatim>\<open>int\<close> have no guard. A day that is not a number raises
  \<^verbatim>\<open>ValueError\<close> when year and month are present, and so does a month that consists of
  the superscript digit U+00B2, of which \<^verbatim>\<open>isdigit\<close> is true.
\<close>

lemma extract_pubmed_date_int_raises:
  "extract_pubmed_date
     (Some \<lparr>year = Some ''2024'', month = Some ''Mar'', day = Some ''1st''\<rparr>) None
     = Inl ValueError
   \<and> isdigit [CHR 0xB2]
   \<and> extract_pubmed_date
     (Some \<lparr>year = Some ''2024'', month = Some [CHR 0xB2], day = None\<rparr>) None
     = Inl ValueError
   \<and> py_int (''9'' @ [CHR 0x1C]) = Inl ValueError"
  by code_simp

end
